theory Spec2Isabelle
  imports Main "HOL-Library.AList"
begin

section \<open>Strings as Python sees them\<close>

text \<open>
  Texts are modelled as ASCII strings.  \<open>upper\<close> is \<^verbatim>\<open>str.upper\<close>, \<open>is_space\<close> is the
  class of characters that \<^verbatim>\<open>str.strip()\<close> removes and that \<^verbatim>\<open>\s\<close> matches, \<open>is_word\<close> is
  the class \<^verbatim>\<open>\w\<close>, all three restricted to ASCII.
\<close>

definition is_lower :: "char \<Rightarrow> bool" where
  "is_lower c = (let n = (of_char c :: nat) in 97 \<le> n \<and> n \<le> 122)"

definition is_upper :: "char \<Rightarrow> bool" where
  "is_upper c = (let n = (of_char c :: nat) in 65 \<le> n \<and> n \<le> 90)"

definition is_digit :: "char \<Rightarrow> bool" where
  "is_digit c = (let n = (of_char c :: nat) in 48 \<le> n \<and> n \<le> 57)"

definition upper_char :: "char \<Rightarrow> char" where
  "upper_char c = (if is_lower c then char_of ((of_char c :: nat) - 32) else c)"

definition upper :: "string \<Rightarrow> string" where
  "upper s = map upper_char s"

definition is_space :: "char \<Rightarrow> bool" where
  "is_space c = (let n = (of_char c :: nat) in (9 \<le> n \<and> n \<le> 13) \<or> (28 \<le> n \<and> n \<le> 32))"

definition is_word :: "char \<Rightarrow> bool" where
  "is_word c = (is_lower c \<or> is_upper c \<or> is_digit c \<or> c = CHR ''_'')"

text \<open>
  The same functions on the bits of a character, for evaluation: bit 5 tells a lower-case
  letter from the upper-case one, and \<open>upper_char\<close> clears it.
\<close>

lemma is_lower_code [code]:
  "is_lower (Char b0 b1 b2 b3 b4 b5 b6 b7) =
     (\<not> b7 \<and> b6 \<and> b5 \<and> (b0 \<or> b1 \<or> b2 \<or> b3 \<or> b4) \<and> \<not> (b4 \<and> b3 \<and> (b2 \<or> b1 \<and> b0)))"
  by (cases b0; cases b1; cases b2; cases b3; cases b4; cases b5; cases b6; cases b7)
     (simp_all add: is_lower_def)

lemma is_upper_code [code]:
  "is_upper (Char b0 b1 b2 b3 b4 b5 b6 b7) =
     (\<not> b7 \<and> b6 \<and> \<not> b5 \<and> (b0 \<or> b1 \<or> b2 \<or> b3 \<or> b4) \<and> \<not> (b4 \<and> b3 \<and> (b2 \<or> b1 \<and> b0)))"
  by (cases b0; cases b1; cases b2; cases b3; cases b4; cases b5; cases b6; cases b7)
     (simp_all add: is_upper_def)

lemma is_digit_code [code]:
  "is_digit (Char b0 b1 b2 b3 b4 b5 b6 b7) =
     (\<not> b7 \<and> \<not> b6 \<and> b5 \<and> b4 \<and> \<not> (b3 \<and> (b2 \<or> b1)))"
  by (cases b0; cases b1; cases b2; cases b3; cases b4; cases b5; cases b6; cases b7)
     (simp_all add: is_digit_def)

lemma is_space_code [code]:
  "is_space (Char b0 b1 b2 b3 b4 b5 b6 b7) =
     (\<not> b7 \<and> \<not> b6 \<and>
      (\<not> b5 \<and> \<not> b4 \<and> b3 \<and> (\<not> b2 \<and> (b1 \<or> b0) \<or> b2 \<and> \<not> b1) \<or>
       \<not> b5 \<and> b4 \<and> b3 \<and> b2 \<or>
       b5 \<and> \<not> b4 \<and> \<not> b3 \<and> \<not> b2 \<and> \<not> b1 \<and> \<not> b0))"
  by (cases b0; cases b1; cases b2; cases b3; cases b4; cases b5; cases b6; cases b7)
     (simp_all add: is_space_def)

lemma upper_char_code [code]:
  "upper_char (Char b0 b1 b2 b3 b4 b5 b6 b7) =
     (if is_lower (Char b0 b1 b2 b3 b4 b5 b6 b7) then Char b0 b1 b2 b3 b4 False b6 b7
      else Char b0 b1 b2 b3 b4 b5 b6 b7)"
proof (cases "is_lower (Char b0 b1 b2 b3 b4 b5 b6 b7)")
  case False
  then show ?thesis by (simp add: upper_char_def)
next
  case True
  then have b: "b5" "\<not> b7" "b6" by (simp_all add: is_lower_code)
  have "(of_char (Char b0 b1 b2 b3 b4 True b6 b7) :: nat) - 32 =
        of_char (Char b0 b1 b2 b3 b4 False b6 b7)"
    by simp
  then have "char_of ((of_char (Char b0 b1 b2 b3 b4 True b6 b7) :: nat) - 32) =
        Char b0 b1 b2 b3 b4 False b6 b7"
    by (simp only: char_of_char)
  with True b show ?thesis by (simp add: upper_char_def)
qed

text \<open>\<^verbatim>\<open>s.strip()\<close> and \<^verbatim>\<open>s.strip(chars)\<close>.\<close>

definition strip_chars :: "(char \<Rightarrow> bool) \<Rightarrow> string \<Rightarrow> string" where
  "strip_chars p s = rev (dropWhile p (rev (dropWhile p s)))"

definition strip :: "string \<Rightarrow> string" where
  "strip s = strip_chars is_space s"

text \<open>\<^verbatim>\<open>needle in haystack\<close> on strings.\<close>

fun is_substring :: "string \<Rightarrow> string \<Rightarrow> bool" where
  "is_substring needle [] = (needle = [])"
| "is_substring needle (c # cs) =
     (take (length needle) (c # cs) = needle \<or> is_substring needle cs)"

section \<open>The regular expressions of the detector\<close>

text \<open>
  The patterns of \<^verbatim>\<open>sql_detector.py\<close> are written in the fragment of Python's \<^verbatim>\<open>re\<close>
  syntax below.  \<open>Lit\<close> is a literal character, \<open>LitI\<close> a literal under
  \<^verbatim>\<open>re.IGNORECASE\<close>, \<open>AnyChar\<close> is \<^verbatim>\<open>.\<close> under \<^verbatim>\<open>re.DOTALL\<close>, \<open>Eol\<close> is \<^verbatim>\<open>$\<close> and
  \<open>EolM\<close> is \<^verbatim>\<open>$\<close> under \<^verbatim>\<open>re.MULTILINE\<close>.
\<close>

datatype rx =
    Lit char
  | LitI char
  | AnyChar
  | Space
  | Word
  | OneOf string
  | NoneOf string
  | Bound
  | Eol
  | EolM
  | Eps
  | Seq rx rx
  | Alt rx rx
  | Star rx
  | Lazy rx
  | Group rx

text \<open>
  A matcher state is the character before the current position (for \<^verbatim>\<open>\b\<close>), the text
  from the current position on, and the text captured by group 1 so far.
\<close>

type_synonym mstate = "char option \<times> string \<times> string option"

definition at_boundary :: "char option \<Rightarrow> string \<Rightarrow> bool" where
  "at_boundary p s =
     ((case p of None \<Rightarrow> False | Some c \<Rightarrow> is_word c) \<noteq>
      (case s of [] \<Rightarrow> False | c # _ \<Rightarrow> is_word c))"

definition one_char :: "(char \<Rightarrow> bool) \<Rightarrow> mstate \<Rightarrow> mstate list" where
  "one_char ok st =
     (case st of (p, s, g) \<Rightarrow>
        (case s of [] \<Rightarrow> [] | c # cs \<Rightarrow> if ok c then [(Some c, cs, g)] else []))"

definition shorter :: "mstate \<Rightarrow> mstate \<Rightarrow> bool" where
  "shorter st st' = (length (fst (snd st')) < length (fst (snd st)))"

text \<open>
  \<open>rx_match r st\<close> lists the states in which a match of \<open>r\<close> begun in \<open>st\<close> can end, in
  the order in which a backtracking matcher tries them: the left alternative before the
  right one, a greedy repetition longest first, a lazy one shortest first.  The head of
  the list is the match that \<^verbatim>\<open>re\<close> reports.  A repetition only continues after an
  iteration that consumed a character.
\<close>

function rx_match :: "rx \<Rightarrow> mstate \<Rightarrow> mstate list" where
  "rx_match (Lit c) st = one_char (\<lambda>x. x = c) st"
| "rx_match (LitI c) st = one_char (\<lambda>x. upper_char x = upper_char c) st"
| "rx_match AnyChar st = one_char (\<lambda>x. True) st"
| "rx_match Space st = one_char is_space st"
| "rx_match Word st = one_char is_word st"
| "rx_match (OneOf cs) st = one_char (\<lambda>x. List.member cs x) st"
| "rx_match (NoneOf cs) st = one_char (\<lambda>x. \<not> List.member cs x) st"
| "rx_match Bound st = (if at_boundary (fst st) (fst (snd st)) then [st] else [])"
| "rx_match Eol st =
     (if fst (snd st) = [] \<or> fst (snd st) = [CHR 0x0A] then [st] else [])"
| "rx_match EolM st =
     (if fst (snd st) = [] \<or> take 1 (fst (snd st)) = [CHR 0x0A] then [st] else [])"
| "rx_match Eps st = [st]"
| "rx_match (Seq a b) st = concat (map (rx_match b) (rx_match a st))"
| "rx_match (Alt a b) st = rx_match a st @ rx_match b st"
| "rx_match (Star r) st =
     concat (map (rx_match (Star r)) (filter (shorter st) (rx_match r st))) @ [st]"
| "rx_match (Lazy r) st =
     st # concat (map (rx_match (Lazy r)) (filter (shorter st) (rx_match r st)))"
| "rx_match (Group r) st =
     map (\<lambda>st'. (fst st', fst (snd st'),
                 Some (take (length (fst (snd st)) - length (fst (snd st'))) (fst (snd st)))))
       (rx_match r st)"
  by pat_completeness auto
termination
  by (relation "inv_image (less_than <*lex*> less_than)
        (\<lambda>(r, st). (size r, length (fst (snd st))))")
     (auto simp: shorter_def)


text \<open>
  \<^verbatim>\<open>re.search\<close>: the leftmost position at which the pattern matches, with the match the
  backtracking order prefers there.  The result is the text from the start of the match
  on, and the state at its end.
\<close>

fun rx_search :: "rx \<Rightarrow> char option \<Rightarrow> string \<Rightarrow> (string \<times> mstate) option" where
  "rx_search r p [] = (case rx_match r (p, [], None) of [] \<Rightarrow> None | m # _ \<Rightarrow> Some ([], m))"
| "rx_search r p (c # cs) =
     (case rx_match r (p, c # cs, None) of
        [] \<Rightarrow> rx_search r (Some c) cs
      | m # _ \<Rightarrow> Some (c # cs, m))"

definition matched_text :: "string \<times> mstate \<Rightarrow> string" where
  "matched_text sm = (case sm of (s0, (p, rest, g)) \<Rightarrow> take (length s0 - length rest) s0)"

definition group1 :: "string \<times> mstate \<Rightarrow> string" where
  "group1 sm = (case sm of (s0, (p, rest, g)) \<Rightarrow> (case g of None \<Rightarrow> [] | Some t \<Rightarrow> t))"

lemma rx_search_length:
  "rx_search r p s = Some (s0, m) \<Longrightarrow> length s0 \<le> length s"
proof (induction s arbitrary: p)
  case Nil
  then show ?case by (simp split: list.splits)
next
  case (Cons c cs)
  show ?case
  proof (cases "rx_match r (p, c # cs, None)")
    case Nil
    with Cons.prems have "rx_search r (Some c) cs = Some (s0, m)" by simp
    from Cons.IH [OF this] show ?thesis by simp
  next
    case (Cons m' ms)
    with Cons.prems show ?thesis by simp
  qed
qed

text \<open>
  \<^verbatim>\<open>re.finditer\<close>: the successive non-overlapping matches, each searched from the end
  of the one before.  None of the detector's patterns matches the empty string; after an
  empty match the scan would move on by one character.
\<close>

function rx_finditer :: "rx \<Rightarrow> char option \<Rightarrow> string \<Rightarrow> (string \<times> mstate) list" where
  "rx_finditer r p s =
     (case rx_search r p s of
        None \<Rightarrow> []
      | Some (s0, (p', rest, g)) \<Rightarrow>
          (s0, (p', rest, g)) #
          (if length rest < length s0 then rx_finditer r p' rest
           else (case s0 of [] \<Rightarrow> [] | c # cs \<Rightarrow> rx_finditer r (Some c) cs)))"
  by pat_completeness auto
termination
  by (relation "measure (\<lambda>(r, p, s). length s)")
     (auto dest: rx_search_length)

text \<open>\<^verbatim>\<open>re.sub(pattern, '', s)\<close>: the text with every match removed.\<close>

function rx_remove :: "rx \<Rightarrow> char option \<Rightarrow> string \<Rightarrow> string" where
  "rx_remove r p s =
     (case rx_search r p s of
        None \<Rightarrow> s
      | Some (s0, (p', rest, g)) \<Rightarrow>
          take (length s - length s0) s @
          (if length rest < length s0 then rx_remove r p' rest
           else (case s0 of [] \<Rightarrow> [] | c # cs \<Rightarrow> c # rx_remove r (Some c) cs)))"
  by pat_completeness auto
termination
  by (relation "measure (\<lambda>(r, p, s). length s)")
     (auto dest: rx_search_length)

definition seqs :: "rx list \<Rightarrow> rx" where
  "seqs rs = foldr Seq rs Eps"

definition lits :: "string \<Rightarrow> rx" where
  "lits s = seqs (map Lit s)"

definition litsI :: "string \<Rightarrow> rx" where
  "litsI s = seqs (map LitI s)"

definition plus :: "rx \<Rightarrow> rx" where
  "plus r = Seq r (Star r)"

definition opt :: "rx \<Rightarrow> rx" where
  "opt r = Alt r Eps"

section \<open>The detector (\<^verbatim>\<open>src/tools/sql_detector.py\<close>)\<close>

text \<open>
  \<^verbatim>\<open>SQL_KEYWORDS\<close> is a Python set; the loops over it run in an order that Python does
  not fix.  The list below has the order of the source literal.  \<open>contains_sql\<close> does
  not depend on the order; in \<open>extract_sql_queries\<close> it only decides the order of the
  inline entries.
\<close>

definition SQL_KEYWORDS :: "string list" where
  "SQL_KEYWORDS =
     [''SELECT'', ''INSERT'', ''UPDATE'', ''DELETE'', ''CREATE'', ''DROP'',
      ''ALTER'', ''TRUNCATE'', ''MERGE'', ''UPSERT'', ''REPLACE'']"

text \<open>\<^verbatim>\<open>r'```(?:sql)?.*?```'\<close> with \<^verbatim>\<open>re.DOTALL | re.IGNORECASE\<close>.\<close>

definition code_block_any :: rx where
  "code_block_any = seqs [litsI ''```'', opt (litsI ''sql''), Lazy AnyChar, litsI ''```'']"

text \<open>\<^verbatim>\<open>r'```(?:sql)?\s*(.*?)```'\<close> with \<^verbatim>\<open>re.DOTALL | re.IGNORECASE\<close>.\<close>

definition code_block_pattern :: rx where
  "code_block_pattern =
     seqs [litsI ''```'', opt (litsI ''sql''), Star Space, Group (Lazy AnyChar), litsI ''```'']"

text \<open>The five patterns that \<open>contains_sql\<close> tries for a keyword, on the upper-cased text.\<close>

definition kw_cols_from :: "string \<Rightarrow> rx" where
  "kw_cols_from k =
     seqs [Bound, lits k, Bound, plus Space,
           Alt (Lit CHR ''*'')
               (Seq (plus Word) (Star (seqs [Star Space, Lit CHR '','', Star Space, plus Word]))),
           plus Space, lits ''FROM'', Bound]"

definition kw_into :: "string \<Rightarrow> rx" where
  "kw_into k = seqs [Bound, lits k, Bound, plus Space, lits ''INTO'', Bound]"

definition kw_table :: "string \<Rightarrow> rx" where
  "kw_table k = seqs [Bound, lits k, Bound, plus Space, lits ''TABLE'', Bound]"

definition kw_set :: "string \<Rightarrow> rx" where
  "kw_set k =
     seqs [Bound, lits k, Bound, plus Space, plus Word, plus Space, lits ''SET'', Bound]"

definition kw_from :: "string \<Rightarrow> rx" where
  "kw_from k = seqs [Bound, lits k, Bound, plus Space, lits ''FROM'', plus Space, plus Word]"

definition found :: "rx \<Rightarrow> string \<Rightarrow> bool" where
  "found r s = (rx_search r None s \<noteq> None)"

definition contains_sql_patterns :: "string \<Rightarrow> bool" where
  "contains_sql_patterns text = list_ex (\<lambda>keyword. is_substring keyword (upper text)) SQL_KEYWORDS"

definition inline_sql :: "string \<Rightarrow> bool" where
  "inline_sql text_upper =
     list_ex (\<lambda>keyword.
        found (kw_cols_from keyword) text_upper \<or>
        found (kw_into keyword) text_upper \<or>
        found (kw_table keyword) text_upper \<or>
        found (kw_set keyword) text_upper \<or>
        found (kw_from keyword) text_upper) SQL_KEYWORDS"

definition contains_sql :: "string \<Rightarrow> bool" where
  "contains_sql text =
     (if found code_block_any text \<and>
         (case rx_search code_block_pattern None text of
            None \<Rightarrow> False
          | Some code_content \<Rightarrow> contains_sql_patterns (group1 code_content))
      then True
      else inline_sql (upper (rx_remove code_block_any None text)))"

text \<open>
  \<^verbatim>\<open>rf'\b({keyword}\b[^.;]*?(?:;|\.|\n|$))'\<close> with \<^verbatim>\<open>re.IGNORECASE | re.MULTILINE\<close>.
\<close>

definition inline_pattern :: "string \<Rightarrow> rx" where
  "inline_pattern k =
     Seq Bound
       (Group (seqs [litsI k, Bound, Lazy (NoneOf ''.;''),
                     Alt (Lit CHR '';'') (Alt (Lit CHR ''.'') (Alt (Lit CHR 0x0A) EolM))]))"

text \<open>\<^verbatim>\<open>r'\b(FROM|INTO|TABLE|SET|WHERE|JOIN)\b'\<close> with \<^verbatim>\<open>re.IGNORECASE\<close>.\<close>

definition confirm_pattern :: rx where
  "confirm_pattern =
     seqs [Bound,
           Alt (litsI ''FROM'') (Alt (litsI ''INTO'') (Alt (litsI ''TABLE'')
             (Alt (litsI ''SET'') (Alt (litsI ''WHERE'') (litsI ''JOIN''))))),
           Bound]"

text \<open>\<^verbatim>\<open>r'[.!?]+$'\<close>.\<close>

definition trailing_punct :: rx where
  "trailing_punct = Seq (plus (OneOf ''.!?'')) Eol"

text \<open>The first loop of \<open>extract_sql_queries\<close>: the fenced blocks.\<close>

definition block_queries :: "string \<Rightarrow> string list" where
  "block_queries text =
     foldl (\<lambda>queries m.
              let content = strip (group1 m) in
              if content \<noteq> [] \<and> contains_sql_patterns content then queries @ [content]
              else queries)
       [] (rx_finditer code_block_pattern None text)"

text \<open>The body of the second loop, for one keyword.\<close>

definition inline_queries :: "string \<Rightarrow> string list \<Rightarrow> string \<Rightarrow> string list" where
  "inline_queries text queries keyword =
     foldl (\<lambda>queries m.
              let query = strip (group1 m) in
              if found confirm_pattern query then
                (let query = rx_remove trailing_punct None query in
                 if query \<notin> set queries then queries @ [query] else queries)
              else queries)
       queries (rx_finditer (inline_pattern keyword) None text)"

definition extract_sql_queries :: "string \<Rightarrow> string list" where
  "extract_sql_queries text = foldl (inline_queries text) (block_queries text) SQL_KEYWORDS"


section \<open>Configuration (\<^verbatim>\<open>src/config/settings.py\<close>)\<close>

record settings =
  max_iterations :: int
  sql_max_joins :: int
  sql_max_subqueries :: int

definition default_settings :: settings where
  "default_settings = \<lparr>max_iterations = 3, sql_max_joins = 3, sql_max_subqueries = 5\<rparr>"

section \<open>The parsed form of a statement\<close>

text \<open>
  The validator works on the token trees of the \<^verbatim>\<open>sqlparse\<close> library, which is not part of
  the repository.  A leaf token has a token type and the text it stands for; a group
  (\<^verbatim>\<open>TokenList\<close>) has the attribute \<^verbatim>\<open>tokens\<close>; \<^verbatim>\<open>Parenthesis\<close> is the group that
  \<^verbatim>\<open>isinstance(token, Parenthesis)\<close> recognises.  The list under \<open>Parenthesis\<close> holds the
  tokens between the two delimiters; the delimiters themselves are punctuation tokens
  \<^verbatim>\<open>(\<close> and \<^verbatim>\<open>)\<close>.  A statement is the list of its tokens.
\<close>

datatype ttype =
    Keyword | Keyword_DML | Keyword_DDL | Keyword_CTE
  | Name | Punctuation | Whitespace | Wildcard | Operator | Number | Other_ttype

datatype token =
    Token ttype string
  | TokenList "token list"
  | Parenthesis "token list"

type_synonym statement = "token list"

text \<open>\<^verbatim>\<open>str(token)\<close>.\<close>

fun token_str :: "token \<Rightarrow> string" where
  "token_str (Token ty v) = v"
| "token_str (TokenList ts) = concat (map token_str ts)"
| "token_str (Parenthesis ts) = ''('' @ concat (map token_str ts) @ '')''"

definition stmt_str :: "statement \<Rightarrow> string" where
  "stmt_str ts = concat (map token_str ts)"

text \<open>\<^verbatim>\<open>flatten()\<close>: the leaf tokens, left to right.\<close>

fun flatten :: "token \<Rightarrow> token list" where
  "flatten (Token ty v) = [Token ty v]"
| "flatten (TokenList ts) = concat (map flatten ts)"
| "flatten (Parenthesis ts) =
     Token Punctuation ''('' # concat (map flatten ts) @ [Token Punctuation '')'']"

definition stmt_flatten :: "statement \<Rightarrow> token list" where
  "stmt_flatten ts = concat (map flatten ts)"

text \<open>
  The library itself is a parameter of the model.  \<open>parse\<close> returns the statements of a
  text or raises (\<open>Inl\<close>, with the text of the exception); each statement it returns
  stands for a non-empty piece of the text it was given.  \<open>sp_get_type\<close> is
  \<^verbatim>\<open>Statement.get_type()\<close> and \<open>sp_format\<close> is
  \<^verbatim>\<open>sqlparse.format(query, reindent=True, keyword_case='upper')\<close>; the source calls both
  outside any \<^verbatim>\<open>try\<close>, and they are taken not to raise.
\<close>

definition parser_ok :: "(string \<Rightarrow> string + statement list) \<Rightarrow> bool" where
  "parser_ok p =
     (\<forall>q. case p q of
            Inl e \<Rightarrow> True
          | Inr stmts \<Rightarrow> list_all (\<lambda>s. stmt_str s \<noteq> [] \<and> length (stmt_str s) \<le> length q) stmts)"

typedef sql_parser = "{p :: string \<Rightarrow> string + statement list. parser_ok p}"
  by (rule exI [of _ "\<lambda>q. Inr []"]) (simp add: parser_ok_def)

record sqlparse =
  sp_parser :: sql_parser
  sp_get_type :: "statement \<Rightarrow> string"
  sp_format :: "string \<Rightarrow> string"

definition parse :: "sqlparse \<Rightarrow> string \<Rightarrow> string + statement list" where
  "parse lib q = Rep_sql_parser (sp_parser lib) q"

lemma parse_length:
  "parse lib q = Inr stmts \<Longrightarrow> s \<in> set stmts \<Longrightarrow> length (stmt_str s) \<le> length q"
proof -
  assume a: "parse lib q = Inr stmts" and b: "s \<in> set stmts"
  have "parser_ok (Rep_sql_parser (sp_parser lib))"
    using Rep_sql_parser [of "sp_parser lib"] by simp
  then have "list_all (\<lambda>s. stmt_str s \<noteq> [] \<and> length (stmt_str s) \<le> length q) stmts"
    using a unfolding parser_ok_def parse_def
    by (metis (mono_tags, lifting) sum.simps(6))
  with b show ?thesis by (simp add: list_all_iff)
qed

lemma parse_nonempty:
  "parse lib q = Inr stmts \<Longrightarrow> s \<in> set stmts \<Longrightarrow> stmt_str s \<noteq> []"
proof -
  assume a: "parse lib q = Inr stmts" and b: "s \<in> set stmts"
  have "parser_ok (Rep_sql_parser (sp_parser lib))"
    using Rep_sql_parser [of "sp_parser lib"] by simp
  then have "list_all (\<lambda>s. stmt_str s \<noteq> [] \<and> length (stmt_str s) \<le> length q) stmts"
    using a unfolding parser_ok_def parse_def
    by (metis (mono_tags, lifting) sum.simps(6))
  with b show ?thesis by (simp add: list_all_iff)
qed

section \<open>The validator (\<^verbatim>\<open>src/tools/sql_validator.py\<close>)\<close>

definition BLOCKED_KEYWORDS :: "string list" where
  "BLOCKED_KEYWORDS =
     [''INSERT'', ''UPDATE'', ''DELETE'', ''DROP'',
      ''ALTER'', ''CREATE'', ''TRUNCATE'', ''REPLACE'',
      ''MERGE'', ''UPSERT'', ''GRANT'', ''REVOKE'',
      ''EXEC'', ''EXECUTE'']"

datatype mvalue = IntVal int | StrVal string

record SQLValidationResult =
  valid :: bool
  errors :: "string list"
  warnings :: "string list"
  metadata :: "(string \<times> mvalue) list"

text \<open>The result that \<^verbatim>\<open>SQLValidationResult()\<close> constructs.\<close>

definition new_result :: SQLValidationResult where
  "new_result = \<lparr>valid = True, errors = [], warnings = [], metadata = []\<rparr>"

definition fail :: "string \<Rightarrow> SQLValidationResult \<Rightarrow> SQLValidationResult" where
  "fail msg result = result\<lparr>valid := False, errors := errors result @ [msg]\<rparr>"

text \<open>\<^verbatim>\<open>str(n)\<close> for an integer.\<close>

function str_nat :: "nat \<Rightarrow> string" where
  "str_nat n =
     (if n < 10 then [char_of (48 + n)]
      else str_nat (n div 10) @ [char_of (48 + n mod 10)])"
  by pat_completeness auto
termination
  by (relation "measure id") auto

definition str_int :: "int \<Rightarrow> string" where
  "str_int i = (if i < 0 then ''-'' @ str_nat (nat (- i)) else str_nat (nat i))"

text \<open>
  \<open>count_joins\<close>: the loop over \<^verbatim>\<open>statement.tokens\<close>, descending into every group.  The
  delimiters of a parenthesis are punctuation and count for nothing.
\<close>

function count_joins :: "token list \<Rightarrow> nat" where
  "count_joins [] = 0"
| "count_joins (Token ty v # rest) =
     (if ty = Keyword \<and> is_substring ''JOIN'' (upper v) then 1 else 0) + count_joins rest"
| "count_joins (TokenList ts # rest) = count_joins ts + count_joins rest"
| "count_joins (Parenthesis ts # rest) = count_joins ts + count_joins rest"
  by pat_completeness auto
termination
  by (relation "measure (size_list size)") auto

text \<open>\<^verbatim>\<open>str(token).strip('()')\<close>.\<close>

definition strip_parens :: "string \<Rightarrow> string" where
  "strip_parens s = strip_chars (\<lambda>c. c = CHR ''('' \<or> c = CHR '')'') s"

lemma length_dropWhile_le': "length (dropWhile p xs) \<le> length xs"
  by (induction xs) auto

lemma strip_parens_shorter:
  "length (strip_parens (''('' @ s @ '')'')) < length (''('' @ s @ '')'')"
proof -
  have "length (strip_parens (''('' @ s @ '')'')) \<le> length (dropWhile (\<lambda>c. c = CHR ''('' \<or> c = CHR '')'') (''('' @ s @ '')''))"
    unfolding strip_parens_def strip_chars_def
    using length_dropWhile_le' [of "\<lambda>c. c = CHR ''('' \<or> c = CHR '')''"
        "rev (dropWhile (\<lambda>c. c = CHR ''('' \<or> c = CHR '')'') (''('' @ s @ '')''))"]
    by simp
  also have "\<dots> \<le> length (s @ '')'')"
    using length_dropWhile_le' [of "\<lambda>c. c = CHR ''('' \<or> c = CHR '')''" "s @ '')''"]
    by simp
  finally show ?thesis by simp
qed

text \<open>
  \<open>count_subqueries\<close>: a parenthesis is parsed again, without its delimiters; when the
  first statement of the result is a \<^verbatim>\<open>SELECT\<close> it counts, and the count goes on inside
  that statement.  A parser exception is swallowed.  Other groups are searched as they
  are.
\<close>

function count_subqueries :: "sqlparse \<Rightarrow> token list \<Rightarrow> nat" where
  "count_subqueries lib [] = 0"
| "count_subqueries lib (Parenthesis ts # rest) =
     (case parse lib (strip_parens (token_str (Parenthesis ts))) of
        Inl e \<Rightarrow> 0
      | Inr [] \<Rightarrow> 0
      | Inr (inner # others) \<Rightarrow>
          if sp_get_type lib inner = ''SELECT'' then 1 + count_subqueries lib inner else 0)
     + count_subqueries lib rest"
| "count_subqueries lib (TokenList ts # rest) =
     count_subqueries lib ts + count_subqueries lib rest"
| "count_subqueries lib (Token ty v # rest) = count_subqueries lib rest"
  by pat_completeness auto

termination
proof (relation "inv_image (less_than <*lex*> less_than)
         (\<lambda>(lib, ts). (length (stmt_str ts), size_list size ts))", goal_cases)
  case 1
  show ?case by auto
next
  case (2 lib ts rest stmts inner others)
  have "length (stmt_str inner) \<le> length (strip_parens (token_str (Parenthesis ts)))"
    using parse_length [OF 2(1), of inner] 2(2) by simp
  also have "\<dots> < length (token_str (Parenthesis ts))"
    using strip_parens_shorter by simp
  finally show ?case by (simp add: stmt_str_def)
next
  case 3
  then show ?case by (auto simp: stmt_str_def)
next
  case 4
  then show ?case by (auto simp: stmt_str_def)
next
  case 5
  then show ?case by (auto simp: stmt_str_def)
next
  case 6
  then show ?case by (auto simp: stmt_str_def)
qed

text \<open>Layer 3: the scan of the flattened tokens for blocked keywords.\<close>

definition check_blocklist :: "statement \<Rightarrow> SQLValidationResult \<Rightarrow> SQLValidationResult" where
  "check_blocklist statement result =
     foldl (\<lambda>result token.
              case token of
                Token ty v \<Rightarrow>
                  if ty = Keyword \<and> List.member BLOCKED_KEYWORDS (upper v)
                  then fail (''Blocked keyword found: '' @ upper v) result
                  else result
              | _ \<Rightarrow> result)
       result (stmt_flatten statement)"

text \<open>Layer 4: the join limit.\<close>

definition check_joins :: "settings \<Rightarrow> statement \<Rightarrow> SQLValidationResult \<Rightarrow> SQLValidationResult" where
  "check_joins cfg statement result =
     (let join_count = int (count_joins statement);
          result = result\<lparr>metadata :=
                     AList.update ''join_count'' (IntVal join_count) (metadata result)\<rparr>
      in if join_count > sql_max_joins cfg
         then fail (''Too many JOINs: '' @ str_int join_count @
                    '' (max: '' @ str_int (sql_max_joins cfg) @ '')'') result
         else result)"

text \<open>Layer 5: the subquery limit.\<close>

definition check_subqueries ::
  "settings \<Rightarrow> sqlparse \<Rightarrow> statement \<Rightarrow> SQLValidationResult \<Rightarrow> SQLValidationResult" where
  "check_subqueries cfg lib statement result =
     (let subquery_count = int (count_subqueries lib statement);
          result = result\<lparr>metadata :=
                     AList.update ''subquery_count'' (IntVal subquery_count) (metadata result)\<rparr>
      in if subquery_count > sql_max_subqueries cfg
         then fail (''Too many subqueries: '' @ str_int subquery_count @
                    '' (max: '' @ str_int (sql_max_subqueries cfg) @ '')'') result
         else result)"

definition add_formatted :: "sqlparse \<Rightarrow> string \<Rightarrow> SQLValidationResult \<Rightarrow> SQLValidationResult" where
  "add_formatted lib query result =
     result\<lparr>metadata :=
       AList.update ''formatted_query'' (StrVal (sp_format lib query)) (metadata result)\<rparr>"

definition validate_sql_query :: "settings \<Rightarrow> sqlparse \<Rightarrow> string \<Rightarrow> SQLValidationResult" where
  "validate_sql_query cfg lib query =
     (case parse lib query of
        Inl e \<Rightarrow> fail (''SQL parsing failed: '' @ e) new_result
      | Inr [] \<Rightarrow> fail ''Empty or invalid SQL query'' new_result
      | Inr (statement # others) \<Rightarrow>
          (let stmt_type = sp_get_type lib statement in
           if stmt_type \<noteq> ''SELECT''
           then fail (''Only SELECT statements allowed, got: '' @ stmt_type) new_result
           else add_formatted lib query
                  (check_subqueries cfg lib statement
                    (check_joins cfg statement
                      (check_blocklist statement new_result)))))"


section \<open>Messages and the agent state (\<^verbatim>\<open>src/agent/state.py\<close>)\<close>

text \<open>
  The messages are the LangChain classes the source names.  \<open>Opaque\<close> stands for an
  object with neither a \<^verbatim>\<open>content\<close> nor a \<^verbatim>\<open>tool_calls\<close> attribute: the source probes for
  both with \<^verbatim>\<open>hasattr\<close>.
\<close>

record tool_call =
  tc_name :: string
  tc_args :: "(string \<times> string) list"
  tc_id :: string

datatype message =
    SystemMessage string
  | HumanMessage string
  | AIMessage string "tool_call list"
  | ToolMessage string string
  | Opaque

text \<open>\<^verbatim>\<open>m.content\<close> where \<^verbatim>\<open>hasattr(m, 'content')\<close>, and the same for \<^verbatim>\<open>tool_calls\<close>.\<close>

fun content_attr :: "message \<Rightarrow> string option" where
  "content_attr (SystemMessage c) = Some c"
| "content_attr (HumanMessage c) = Some c"
| "content_attr (AIMessage c tcs) = Some c"
| "content_attr (ToolMessage c i) = Some c"
| "content_attr Opaque = None"

fun tool_calls_attr :: "message \<Rightarrow> tool_call list option" where
  "tool_calls_attr (AIMessage c tcs) = Some tcs"
| "tool_calls_attr m = None"

fun is_SystemMessage :: "message \<Rightarrow> bool" where
  "is_SystemMessage (SystemMessage c) = True"
| "is_SystemMessage m = False"

record violation =
  v_query :: string
  v_errors :: "string list"
  v_metadata :: "(string \<times> mvalue) list"

text \<open>
  The state is a dictionary.  The keys that the source reads with \<^verbatim>\<open>state.get(key,
  default)\<close> may be absent (\<open>None\<close>); \<open>tool_output\<close> is present and may hold Python's
  \<^verbatim>\<open>None\<close>.
\<close>

record state =
  messages :: "message list"
  user_input :: string
  tool_output :: "string option"
  iteration_count :: int
  should_continue :: "bool option"
  sql_safe :: "bool option"
  sql_violations :: "violation list option"
  guard_checked :: "bool option"

datatype exn = IndexError | AttributeError

section \<open>The tool registry (\<^verbatim>\<open>src/tools/registry.py\<close>)\<close>

text \<open>
  A tool has a name, a description and \<^verbatim>\<open>invoke\<close>, which returns a text or raises (\<open>Inl\<close>,
  with the text of the exception).  The registry is the dictionary \<^verbatim>\<open>_tools\<close>, in
  insertion order.
\<close>

record tool =
  tool_name :: string
  tool_description :: string
  tool_invoke :: "(string \<times> string) list \<Rightarrow> string + string"

type_synonym registry = "(string \<times> tool) list"

definition register :: "tool \<Rightarrow> registry \<Rightarrow> registry" where
  "register t reg = AList.update (tool_name t) t reg"

definition get_tool_schemas :: "registry \<Rightarrow> tool list" where
  "get_tool_schemas reg = map snd reg"

definition execute_tool :: "registry \<Rightarrow> string \<Rightarrow> (string \<times> string) list \<Rightarrow> string + string" where
  "execute_tool reg name tool_input =
     (case map_of reg name of
        None \<Rightarrow> Inl (''Unknown tool: '' @ name)
      | Some t \<Rightarrow> tool_invoke t tool_input)"

section \<open>The nodes (\<^verbatim>\<open>src/agent/nodes.py\<close>)\<close>

text \<open>
  The environment of a run: the language model with its tools bound (a function from
  the bound tools and the messages to the produced message), the registry, the settings
  and the parsing library.
\<close>

record env =
  llm :: "tool list \<Rightarrow> message list \<Rightarrow> message"
  tools :: registry
  cfg :: settings
  lib :: sqlparse

definition NL :: string where
  "NL = [CHR 0x0A]"

definition ARROW :: string where
  "ARROW = [CHR 0xE2, CHR 0x86, CHR 0x92]"

definition SYSTEM_PROMPT :: string where
  "SYSTEM_PROMPT =
     ''You are a helpful AI assistant with access to SQL validation tools.'' @ NL @
     NL @
     ''CRITICAL SECURITY RULES FOR SQL QUERIES:'' @ NL @
     ''========================================'' @ NL @
     ''1. ALWAYS use the 'sql_query_constructor' tool to validate ANY SQL query'' @ NL @
     ''2. NEVER write raw SQL queries directly in your response without validation'' @ NL @
     ''3. If a user provides SQL, you MUST validate it with the tool before discussing it'' @ NL @
     ''4. If you need to suggest SQL, use the tool FIRST, then present the validated result'' @ NL @
     NL @
     ''Workflow for SQL-related requests:'' @ NL @
     ''1. User asks about SQL '' @ ARROW @ '' Call sql_query_constructor tool'' @ NL @
     ''2. Tool validates the query '' @ ARROW @ '' You explain the validation results'' @ NL @
     ''3. NEVER output SQL without going through the tool'' @ NL @
     NL @
     ''This ensures all SQL queries are checked for security violations (destructive operations, complexity limits, etc.).'' @ NL"

text \<open>The messages that \<open>think_node\<close> hands to the model.\<close>

definition llm_input :: "state \<Rightarrow> message list" where
  "llm_input s =
     (if messages s \<noteq> [] \<and> \<not> is_SystemMessage (hd (messages s))
      then [SystemMessage SYSTEM_PROMPT] @ messages s
      else messages s)"

text \<open>
  A node returns a dictionary of updates; the graph appends the returned \<^verbatim>\<open>messages\<close> to
  those of the state (the \<^verbatim>\<open>add\<close> reducer) and overwrites the other keys.  The nodes below
  return the state with the updates applied.
\<close>

definition think_node :: "env \<Rightarrow> state \<Rightarrow> state" where
  "think_node e s =
     (let response = llm e (get_tool_schemas (tools e)) (llm_input s)
      in s\<lparr>messages := messages s @ [response],
            iteration_count := iteration_count s + 1\<rparr>)"

definition respond_node :: "state \<Rightarrow> state" where
  "respond_node s = s"

definition act_node :: "env \<Rightarrow> state \<Rightarrow> exn + state" where
  "act_node e s =
     (if messages s = [] then Inl IndexError
      else case tool_calls_attr (last (messages s)) of
        None \<Rightarrow> Inl AttributeError
      | Some [] \<Rightarrow> Inl IndexError
      | Some (tool_call # others) \<Rightarrow>
          (let content =
                 (case execute_tool (tools e) (tc_name tool_call) (tc_args tool_call) of
                    Inr result \<Rightarrow> result
                  | Inl err \<Rightarrow> ''Error: '' @ err);
               tool_message = ToolMessage content (tc_id tool_call)
           in Inr (s\<lparr>messages := messages s @ [tool_message],
                      tool_output := Some content\<rparr>)))"

definition startswith :: "string \<Rightarrow> string \<Rightarrow> bool" where
  "startswith s prefix = (take (length prefix) s = prefix)"

definition observe_node :: "state \<Rightarrow> exn + state" where
  "observe_node s =
     (case tool_output s of
        None \<Rightarrow> Inl AttributeError
      | Some out \<Rightarrow> Inr (s\<lparr>should_continue := Some (startswith out ''Error:'')\<rparr>))"

section \<open>The guard (\<^verbatim>\<open>src/agent/guards.py\<close>)\<close>

record guard_result =
  g_sql_safe :: bool
  g_sql_violations :: "violation list"
  g_guard_checked :: bool

definition guard_loop :: "settings \<Rightarrow> sqlparse \<Rightarrow> string list \<Rightarrow> violation list" where
  "guard_loop c l queries =
     foldl (\<lambda>violations query.
              let result = validate_sql_query c l query in
              if \<not> valid result
              then violations @
                   [\<lparr>v_query = query, v_errors = errors result, v_metadata = metadata result\<rparr>]
              else violations)
       [] queries"

definition sql_validation_guard :: "settings \<Rightarrow> sqlparse \<Rightarrow> state \<Rightarrow> guard_result" where
  "sql_validation_guard c l s =
     (if messages s = []
      then \<lparr>g_sql_safe = True, g_sql_violations = [], g_guard_checked = True\<rparr>
      else case content_attr (last (messages s)) of
        None \<Rightarrow> \<lparr>g_sql_safe = True, g_sql_violations = [], g_guard_checked = True\<rparr>
      | Some content \<Rightarrow>
          if \<not> contains_sql content
          then \<lparr>g_sql_safe = True, g_sql_violations = [], g_guard_checked = True\<rparr>
          else (let queries = extract_sql_queries content;
                    violations = guard_loop c l queries;
                    is_safe = (length violations = 0)
                in \<lparr>g_sql_safe = is_safe, g_sql_violations = violations,
                    g_guard_checked = True\<rparr>))"

text \<open>The graph writes the three keys of the guard's result into the state.\<close>

definition apply_guard :: "guard_result \<Rightarrow> state \<Rightarrow> state" where
  "apply_guard g s =
     s\<lparr>sql_safe := Some (g_sql_safe g),
       sql_violations := Some (g_sql_violations g),
       guard_checked := Some (g_guard_checked g)\<rparr>"

section \<open>The graph (\<^verbatim>\<open>src/agent/graph.py\<close>)\<close>

datatype node = THINK | ACT | OBSERVE | RESPOND | SQL_GUARD | END

definition should_use_tool :: "state \<Rightarrow> exn + string" where
  "should_use_tool s =
     (if messages s = [] then Inl IndexError
      else case tool_calls_attr (last (messages s)) of
        Some (tc # tcs) \<Rightarrow> Inr ''use_tool''
      | _ \<Rightarrow> Inr ''respond'')"

definition should_continue_thinking :: "settings \<Rightarrow> state \<Rightarrow> string" where
  "should_continue_thinking c s =
     (if iteration_count s \<ge> max_iterations c then ''finish''
      else if (case should_continue s of None \<Rightarrow> False | Some b \<Rightarrow> b) then ''continue''
      else ''finish'')"

definition is_sql_safe :: "state \<Rightarrow> string" where
  "is_sql_safe s =
     (if \<not> (case guard_checked s of None \<Rightarrow> False | Some b \<Rightarrow> b) then ''safe''
      else if (case sql_safe s of None \<Rightarrow> True | Some b \<Rightarrow> b) then ''safe''
      else ''unsafe'')"

text \<open>
  One step of the compiled graph: the node runs, then its outgoing edge is chosen on the
  updated state.  An exception of a node or of a decision function ends the run.
\<close>

fun step :: "env \<Rightarrow> node \<times> state \<Rightarrow> exn + node \<times> state" where
  "step e (THINK, s) =
     (let s' = think_node e s in
      case should_use_tool s' of
        Inl x \<Rightarrow> Inl x
      | Inr d \<Rightarrow> Inr (if d = ''use_tool'' then ACT else RESPOND, s'))"
| "step e (ACT, s) =
     (case act_node e s of Inl x \<Rightarrow> Inl x | Inr s' \<Rightarrow> Inr (OBSERVE, s'))"
| "step e (OBSERVE, s) =
     (case observe_node s of
        Inl x \<Rightarrow> Inl x
      | Inr s' \<Rightarrow>
          Inr (if should_continue_thinking (cfg e) s' = ''continue'' then THINK else RESPOND, s'))"
| "step e (RESPOND, s) = Inr (SQL_GUARD, respond_node s)"
| "step e (SQL_GUARD, s) =
     (let s' = apply_guard (sql_validation_guard (cfg e) (lib e) s) s in
      Inr (if is_sql_safe s' = ''safe'' then END else THINK, s'))"
| "step e (END, s) = Inr (END, s)"

text \<open>\<open>run e n\<close> takes \<open>n\<close> steps.\<close>

fun run :: "env \<Rightarrow> nat \<Rightarrow> node \<times> state \<Rightarrow> exn + node \<times> state" where
  "run e 0 ns = Inr ns"
| "run e (Suc n) ns = (case step e ns of Inl x \<Rightarrow> Inl x | Inr ns' \<Rightarrow> run e n ns')"


section \<open>A sample library and a sample environment\<close>

text \<open>
  The concrete inputs of this development run on \<open>demo_sqlparse\<close>: a parser given by a
  table of texts with the statements \<^verbatim>\<open>sqlparse\<close> splits them into (any other non-empty
  text is one statement of one unclassified token), a \<open>get_type\<close> that reads the first
  token that is not whitespace, and a formatter that returns the text as it is.
\<close>

definition ws :: token where
  "ws = Token Whitespace '' ''"

definition ident :: "string \<Rightarrow> token" where
  "ident n = TokenList [Token Name n]"

definition stmt_delete :: statement where
  "stmt_delete =
     [Token Keyword_DML ''DELETE'', ws, Token Keyword ''FROM'', ws, ident ''users'', ws,
      TokenList [Token Keyword ''WHERE'', ws,
                 TokenList [ident ''id'', ws, Token Operator ''='', ws, Token Number ''1'']]]"

definition stmt_drop :: statement where
  "stmt_drop = [Token Keyword_DDL ''DROP'', ws, Token Keyword ''TABLE'', ws, ident ''users'']"

definition stmt_select :: statement where
  "stmt_select =
     [Token Keyword_DML ''SELECT'', ws, Token Wildcard ''*'', ws, Token Keyword ''FROM'', ws,
      ident ''users'']"

text \<open>\<^verbatim>\<open>SELECT * FROM t0 JOIN t JOIN t ...\<close> with \<open>n\<close> joins.\<close>

definition stmt_joins :: "nat \<Rightarrow> statement" where
  "stmt_joins n =
     [Token Keyword_DML ''SELECT'', ws, Token Wildcard ''*'', ws, Token Keyword ''FROM'', ws,
      ident ''t0''] @
     concat (replicate n [ws, Token Keyword ''JOIN'', ws, ident ''t''])"

text \<open>
  \<^verbatim>\<open>SELECT * FROM ( SELECT * FROM ( ... SELECT 1 ... ) )\<close> with \<open>n\<close> nested subqueries, and the
  same between two blanks, as it stands inside a parenthesis.
\<close>

fun stmt_nested :: "nat \<Rightarrow> statement" where
  "stmt_nested 0 = [Token Keyword_DML ''SELECT'', ws, Token Number ''1'']"
| "stmt_nested (Suc n) =
     [Token Keyword_DML ''SELECT'', ws, Token Wildcard ''*'', ws, Token Keyword ''FROM'', ws,
      Parenthesis ([ws] @ stmt_nested n @ [ws])]"

definition stmt_padded :: "nat \<Rightarrow> statement" where
  "stmt_padded n = [ws] @ stmt_nested n @ [ws]"

definition stmt_one :: statement where
  "stmt_one = [Token Keyword_DML ''SELECT'', ws, Token Number ''1'', Token Punctuation '';'']"

definition stmt_drop_db :: statement where
  "stmt_drop_db =
     [Token Keyword_DDL ''DROP'', ws, Token Keyword ''DATABASE'', ws, ident ''prod'']"

definition demo_table :: "(string \<times> statement list) list" where
  "demo_table =
     map (\<lambda>s. (stmt_str s, [s]))
       ([stmt_delete, stmt_drop, stmt_select, stmt_joins 3, stmt_joins 4] @
        map stmt_nested [0, 1, 2, 3, 4, 5, 6] @ map stmt_padded [0, 1, 2, 3, 4, 5]) @
     [(stmt_str stmt_one @ stmt_str stmt_drop_db, [stmt_one, stmt_drop_db])]"

definition demo_parse :: "string \<Rightarrow> string + statement list" where
  "demo_parse q =
     (case map_of demo_table q of
        Some stmts \<Rightarrow> Inr stmts
      | None \<Rightarrow> if q = [] then Inr [] else Inr [[Token Other_ttype q]])"

fun demo_get_type :: "statement \<Rightarrow> string" where
  "demo_get_type [] = ''UNKNOWN''"
| "demo_get_type (Token ty v # rest) =
     (if ty = Whitespace then demo_get_type rest
      else if ty = Keyword_DML \<or> ty = Keyword_DDL then upper v
      else ''UNKNOWN'')"
| "demo_get_type (t # rest) = ''UNKNOWN''"

definition demo_sqlparse :: sqlparse where
  "demo_sqlparse =
     \<lparr>sp_parser = Abs_sql_parser demo_parse, sp_get_type = demo_get_type,
      sp_format = (\<lambda>q. q)\<rparr>"

lemma demo_table_ok:
  "list_all (\<lambda>(k, stmts).
      list_all (\<lambda>s. stmt_str s \<noteq> [] \<and> length (stmt_str s) \<le> length k) stmts) demo_table"
  by code_simp

lemma demo_parse_ok: "parser_ok demo_parse"
  unfolding parser_ok_def
proof
  fix q
  show "case demo_parse q of Inl e \<Rightarrow> True
        | Inr stmts \<Rightarrow>
            list_all (\<lambda>s. stmt_str s \<noteq> [] \<and> length (stmt_str s) \<le> length q) stmts"
  proof (cases "map_of demo_table q")
    case None
    then show ?thesis by (simp add: demo_parse_def stmt_str_def)
  next
    case (Some stmts)
    then have "(q, stmts) \<in> set demo_table" by (rule map_of_SomeD)
    with demo_table_ok
    have "list_all (\<lambda>s. stmt_str s \<noteq> [] \<and> length (stmt_str s) \<le> length q) stmts"
      by (auto simp: list_all_iff)
    with Some show ?thesis by (simp add: demo_parse_def)
  qed
qed

lemma parse_demo: "parse demo_sqlparse q = demo_parse q"
  by (simp add: parse_def demo_sqlparse_def Abs_sql_parser_inverse demo_parse_ok)

section \<open>What the layers of the validator report\<close>

text \<open>
  The errors of layers 3, 4 and 5 for a statement, for stating what the validator
  returns.
\<close>

definition blocked_errors :: "statement \<Rightarrow> string list" where
  "blocked_errors st =
     concat (map (\<lambda>t. case t of
                        Token ty v \<Rightarrow>
                          if ty = Keyword \<and> List.member BLOCKED_KEYWORDS (upper v)
                          then [''Blocked keyword found: '' @ upper v] else []
                      | _ \<Rightarrow> [])
               (stmt_flatten st))"

definition join_errors :: "settings \<Rightarrow> statement \<Rightarrow> string list" where
  "join_errors c st =
     (if int (count_joins st) > sql_max_joins c
      then [''Too many JOINs: '' @ str_int (int (count_joins st)) @
            '' (max: '' @ str_int (sql_max_joins c) @ '')'']
      else [])"

definition subquery_errors :: "settings \<Rightarrow> sqlparse \<Rightarrow> statement \<Rightarrow> string list" where
  "subquery_errors c l st =
     (if int (count_subqueries l st) > sql_max_subqueries c
      then [''Too many subqueries: '' @ str_int (int (count_subqueries l st)) @
            '' (max: '' @ str_int (sql_max_subqueries c) @ '')'']
      else [])"

lemma blocklist_foldl:
  "foldl (\<lambda>result token.
              case token of
                Token ty v \<Rightarrow>
                  if ty = Keyword \<and> List.member BLOCKED_KEYWORDS (upper v)
                  then fail (''Blocked keyword found: '' @ upper v) result
                  else result
              | _ \<Rightarrow> result) r ts =
   r\<lparr>valid := valid r \<and> concat (map (\<lambda>t. case t of
                        Token ty v \<Rightarrow>
                          if ty = Keyword \<and> List.member BLOCKED_KEYWORDS (upper v)
                          then [''Blocked keyword found: '' @ upper v] else []
                      | _ \<Rightarrow> []) ts) = [],
      errors := errors r @ concat (map (\<lambda>t. case t of
                        Token ty v \<Rightarrow>
                          if ty = Keyword \<and> List.member BLOCKED_KEYWORDS (upper v)
                          then [''Blocked keyword found: '' @ upper v] else []
                      | _ \<Rightarrow> []) ts)\<rparr>"
proof (induction ts arbitrary: r)
  case Nil
  show ?case by simp
next
  case (Cons t ts)
  show ?case
    by (cases t) (simp_all add: Cons.IH fail_def)
qed

lemma check_blocklist_eq:
  "check_blocklist st r =
     r\<lparr>valid := valid r \<and> blocked_errors st = [], errors := errors r @ blocked_errors st\<rparr>"
  unfolding check_blocklist_def blocked_errors_def by (rule blocklist_foldl)

lemma validate_select:
  assumes "parse l q = Inr (st # rest)" and "sp_get_type l st = ''SELECT''"
  shows "validate_sql_query c l q =
     \<lparr>valid = (blocked_errors st = [] \<and> join_errors c st = [] \<and> subquery_errors c l st = []),
      errors = blocked_errors st @ join_errors c st @ subquery_errors c l st,
      warnings = [],
      metadata = [(''join_count'', IntVal (int (count_joins st))),
                  (''subquery_count'', IntVal (int (count_subqueries l st))),
                  (''formatted_query'', StrVal (sp_format l q))]\<rparr>"
  using assms
  by (simp add: validate_sql_query_def check_blocklist_eq check_joins_def check_subqueries_def
      add_formatted_def new_result_def fail_def join_errors_def subquery_errors_def Let_def)

lemma validate_not_select:
  assumes "parse l q = Inr (st # rest)" and "sp_get_type l st \<noteq> ''SELECT''"
  shows "validate_sql_query c l q =
     \<lparr>valid = False, errors = [''Only SELECT statements allowed, got: '' @ sp_get_type l st],
      warnings = [], metadata = []\<rparr>"
  using assms by (simp add: validate_sql_query_def new_result_def fail_def)

lemma validate_raise:
  assumes "parse l q = Inl e"
  shows "validate_sql_query c l q =
     \<lparr>valid = False, errors = [''SQL parsing failed: '' @ e], warnings = [], metadata = []\<rparr>"
  using assms by (simp add: validate_sql_query_def new_result_def fail_def)

lemma validate_empty:
  assumes "parse l q = Inr []"
  shows "validate_sql_query c l q =
     \<lparr>valid = False, errors = [''Empty or invalid SQL query''], warnings = [], metadata = []\<rparr>"
  using assms by (simp add: validate_sql_query_def new_result_def fail_def)



lemma blocked_errors_hd: "e \<in> set (blocked_errors st) \<Longrightarrow> hd e = CHR ''B''"
  unfolding blocked_errors_def by (auto split: token.splits if_splits)

lemma join_errors_hd: "e \<in> set (join_errors c st) \<Longrightarrow> hd e = CHR ''T''"
  unfolding join_errors_def by (auto split: if_splits)

lemma subquery_errors_hd: "e \<in> set (subquery_errors c l st) \<Longrightarrow> hd e = CHR ''T''"
  unfolding subquery_errors_def by (auto split: if_splits)

section \<open>The statement validator: the claims\<close>

lemma demo_get_type_eq: "sp_get_type demo_sqlparse = demo_get_type"
  by (simp add: demo_sqlparse_def)

lemma demo_format_eq: "sp_format demo_sqlparse q = q"
  by (simp add: demo_sqlparse_def)

lemma demo_parse_delete: "demo_parse ''DELETE FROM users WHERE id = 1'' = Inr [stmt_delete]"
  by code_simp

lemma demo_type_delete: "demo_get_type stmt_delete = ''DELETE''"
  by code_simp

text \<open>
  Claim C5.  When the first parsed statement is classified as anything but \<^verbatim>\<open>SELECT\<close>, the
  result is invalid and its only error names the detected type; the type error is
  reported exactly for the statements that are not classified \<^verbatim>\<open>SELECT\<close>; and the
  text \<^verbatim>\<open>DELETE FROM users WHERE id = 1\<close>, which the library classifies as \<^verbatim>\<open>DELETE\<close>, is
  rejected with an error that names \<^verbatim>\<open>DELETE\<close>.
\<close>

theorem type_allow_list:
  "(\<forall>st rest. parse l q = Inr (st # rest) \<and> sp_get_type l st \<noteq> ''SELECT'' \<longrightarrow>
      validate_sql_query c l q =
        \<lparr>valid = False,
         errors = [''Only SELECT statements allowed, got: '' @ sp_get_type l st],
         warnings = [], metadata = []\<rparr>) \<and>
   (\<forall>st rest. parse l q = Inr (st # rest) \<longrightarrow>
      ((''Only SELECT statements allowed, got: '' @ sp_get_type l st)
          \<in> set (errors (validate_sql_query c l q))) = (sp_get_type l st \<noteq> ''SELECT'')) \<and>
   (\<forall>st rest. parse l ''DELETE FROM users WHERE id = 1'' = Inr (st # rest) \<and>
        sp_get_type l st = ''DELETE'' \<longrightarrow>
      validate_sql_query c l ''DELETE FROM users WHERE id = 1'' =
        \<lparr>valid = False, errors = [''Only SELECT statements allowed, got: DELETE''],
         warnings = [], metadata = []\<rparr>)"
proof (intro conjI allI impI)
  fix st rest
  assume "parse l q = Inr (st # rest) \<and> sp_get_type l st \<noteq> ''SELECT''"
  then show "validate_sql_query c l q =
        \<lparr>valid = False,
         errors = [''Only SELECT statements allowed, got: '' @ sp_get_type l st],
         warnings = [], metadata = []\<rparr>"
    by (simp add: validate_not_select)
next
  fix st rest
  assume p: "parse l q = Inr (st # rest)"
  show "((''Only SELECT statements allowed, got: '' @ sp_get_type l st)
          \<in> set (errors (validate_sql_query c l q))) = (sp_get_type l st \<noteq> ''SELECT'')"
  proof (cases "sp_get_type l st = ''SELECT''")
    case True
    have "(''Only SELECT statements allowed, got: '' @ sp_get_type l st)
            \<notin> set (blocked_errors st @ join_errors c st @ subquery_errors c l st)"
      using blocked_errors_hd [of "''Only SELECT statements allowed, got: '' @ sp_get_type l st" st]
        join_errors_hd [of "''Only SELECT statements allowed, got: '' @ sp_get_type l st" c st]
        subquery_errors_hd [of "''Only SELECT statements allowed, got: '' @ sp_get_type l st" c l st]
      by auto
    with True show ?thesis by (simp add: validate_select [OF p True])
  next
    case False
    then show ?thesis by (simp add: validate_not_select [OF p False])
  qed
next
  fix st rest
  assume "parse l ''DELETE FROM users WHERE id = 1'' = Inr (st # rest) \<and>
        sp_get_type l st = ''DELETE''"
  then show "validate_sql_query c l ''DELETE FROM users WHERE id = 1'' =
        \<lparr>valid = False, errors = [''Only SELECT statements allowed, got: DELETE''],
         warnings = [], metadata = []\<rparr>"
    using validate_not_select [of l "''DELETE FROM users WHERE id = 1''" st rest c] by simp
qed

theorem type_allow_list_witness:
  "parse demo_sqlparse ''DELETE FROM users WHERE id = 1'' = Inr [stmt_delete] \<and>
   sp_get_type demo_sqlparse stmt_delete = ''DELETE'' \<and>
   validate_sql_query default_settings demo_sqlparse ''DELETE FROM users WHERE id = 1'' =
     \<lparr>valid = False, errors = [''Only SELECT statements allowed, got: DELETE''],
      warnings = [], metadata = []\<rparr>"
  using type_allow_list [of demo_sqlparse "''DELETE FROM users WHERE id = 1''" default_settings]
  by (simp add: parse_demo demo_parse_delete demo_get_type_eq demo_type_delete)

lemma demo_parse_joins4: "demo_parse (stmt_str (stmt_joins 4)) = Inr [stmt_joins 4]"
  by code_simp

lemma demo_type_joins4: "demo_get_type (stmt_joins 4) = ''SELECT''"
  by code_simp

lemma demo_joins4_count: "count_joins (stmt_joins 4) = 4"
  by code_simp

lemma demo_joins4_blocked: "blocked_errors (stmt_joins 4) = []"
  by code_simp

lemma count_subqueries_append:
  "count_subqueries l (xs @ ys) = count_subqueries l xs + count_subqueries l ys"
  by (induction l xs rule: count_subqueries.induct) simp_all

lemma demo_joins_subqueries: "count_subqueries l (stmt_joins n) = 0"
  by (induction n) (simp_all add: stmt_joins_def ws_def ident_def count_subqueries_append)

lemma str_int_3: "str_int 3 = ''3''"
  by code_simp

lemma str_int_4: "str_int 4 = ''4''"
  by code_simp

text \<open>
  Claim C10.  The metadata of the result is empty when the parser raises, returns no
  statement, or the first statement is not classified \<^verbatim>\<open>SELECT\<close>; for a \<^verbatim>\<open>SELECT\<close> it holds
  \<^verbatim>\<open>join_count\<close>, \<^verbatim>\<open>subquery_count\<close> and \<^verbatim>\<open>formatted_query\<close>, whether the result is valid or
  not, and the errors of the blocklist, the join limit and the subquery limit are all
  collected, in this order.
\<close>

theorem metadata_always_filled:
  "metadata (validate_sql_query c l q) =
     (case parse l q of
        Inl e \<Rightarrow> []
      | Inr [] \<Rightarrow> []
      | Inr (st # rest) \<Rightarrow>
          if sp_get_type l st = ''SELECT''
          then [(''join_count'', IntVal (int (count_joins st))),
                (''subquery_count'', IntVal (int (count_subqueries l st))),
                (''formatted_query'', StrVal (sp_format l q))]
          else []) \<and>
   (case parse l q of
      Inr (st # rest) \<Rightarrow>
        if sp_get_type l st = ''SELECT''
        then errors (validate_sql_query c l q) =
               blocked_errors st @ join_errors c st @ subquery_errors c l st \<and>
             valid (validate_sql_query c l q) = (errors (validate_sql_query c l q) = [])
        else True
    | _ \<Rightarrow> True)"
proof (cases "parse l q")
  case (Inl e)
  then show ?thesis by (simp add: validate_raise)
next
  case (Inr stmts)
  show ?thesis
  proof (cases stmts)
    case Nil
    with Inr show ?thesis by (simp add: validate_empty)
  next
    case (Cons st rest)
    with Inr have p: "parse l q = Inr (st # rest)" by simp
    show ?thesis
    proof (cases "sp_get_type l st = ''SELECT''")
      case True
      show ?thesis by (simp add: p True validate_select [OF p True])
    next
      case False
      show ?thesis by (simp add: p False validate_not_select [OF p False])
    qed
  qed
qed

theorem metadata_always_filled_witness:
  "\<not> valid (validate_sql_query default_settings demo_sqlparse (stmt_str (stmt_joins 4))) \<and>
   errors (validate_sql_query default_settings demo_sqlparse (stmt_str (stmt_joins 4))) =
     [''Too many JOINs: 4 (max: 3)''] \<and>
   metadata (validate_sql_query default_settings demo_sqlparse (stmt_str (stmt_joins 4))) =
     [(''join_count'', IntVal 4), (''subquery_count'', IntVal 0),
      (''formatted_query'', StrVal (stmt_str (stmt_joins 4)))]"
  using metadata_always_filled [of default_settings demo_sqlparse "stmt_str (stmt_joins 4)"]
  by (simp add: parse_demo demo_parse_joins4 demo_get_type_eq demo_type_joins4
      demo_joins4_count demo_joins4_blocked demo_joins_subqueries demo_format_eq
      join_errors_def subquery_errors_def default_settings_def str_int_3 str_int_4)

lemma demo_parse_two:
  "demo_parse ''SELECT 1;DROP DATABASE prod'' = Inr [stmt_one, stmt_drop_db]"
  by code_simp

lemma demo_one_facts:
  "demo_get_type stmt_one = ''SELECT'' \<and> blocked_errors stmt_one = [] \<and>
   count_joins stmt_one = 0"
  by code_simp

lemma demo_type_drop_db: "demo_get_type stmt_drop_db = ''DROP''"
  by code_simp

lemma demo_one_subqueries: "count_subqueries l stmt_one = 0"
  by (simp add: stmt_one_def ws_def)

lemma demo_parse_nil: "demo_parse [] = Inr []"
  by code_simp

text \<open>
  What the parse layer does reject.  When the parser raises, the result is invalid and
  its only error is \<^verbatim>\<open>SQL parsing failed:\<close> with the text of the exception; when the parser
  returns no statement, the result is invalid and its only error is
  \<^verbatim>\<open>Empty or invalid SQL query\<close>; in both cases the metadata is empty.  The empty text is
  always in one of these two cases.
\<close>

lemma parse_failure_rejected:
  "(\<forall>e. parse l q = Inl e \<longrightarrow>
      validate_sql_query c l q =
        \<lparr>valid = False, errors = [''SQL parsing failed: '' @ e], warnings = [],
         metadata = []\<rparr>) \<and>
   (parse l q = Inr [] \<longrightarrow>
      validate_sql_query c l q =
        \<lparr>valid = False, errors = [''Empty or invalid SQL query''], warnings = [],
         metadata = []\<rparr>) \<and>
   ((\<exists>e. parse l [] = Inl e) \<or> parse l [] = Inr []) \<and>
   \<not> valid (validate_sql_query c l []) \<and>
   metadata (validate_sql_query c l []) = []"
proof -
  have empty: "(\<exists>e. parse l [] = Inl e) \<or> parse l [] = Inr []"
  proof (cases "parse l []")
    case (Inl e)
    then show ?thesis by simp
  next
    case (Inr stmts)
    show ?thesis
    proof (cases stmts)
      case Nil
      with Inr show ?thesis by simp
    next
      case (Cons st rest)
      with Inr have "length (stmt_str st) \<le> length ([] :: string)" "stmt_str st \<noteq> []"
        using parse_length [of l "[]" stmts st] parse_nonempty [of l "[]" stmts st] by simp_all
      then show ?thesis by simp
    qed
  qed
  then have "\<not> valid (validate_sql_query c l []) \<and> metadata (validate_sql_query c l []) = []"
    by (auto simp: validate_raise validate_empty)
  with empty show ?thesis
    by (simp add: validate_raise validate_empty)
qed

text \<open>
  The statements after the first have no part in the verdict: two texts whose parses
  begin with the same statement get the same verdict and the same errors.
\<close>

lemma statements_after_first_ignored:
  assumes "parse l q = Inr (st # rest)" and "parse l q' = Inr (st # rest')"
  shows "valid (validate_sql_query c l q') = valid (validate_sql_query c l q) \<and>
         errors (validate_sql_query c l q') = errors (validate_sql_query c l q)"
proof (cases "sp_get_type l st = ''SELECT''")
  case True
  show ?thesis
    by (simp add: validate_select [OF assms(1) True] validate_select [OF assms(2) True])
next
  case False
  show ?thesis
    by (simp add: validate_not_select [OF assms(1) False] validate_not_select [OF assms(2) False])
qed

text \<open>
  Claim C3 does not hold of the code.  The text \<^verbatim>\<open>SELECT 1;DROP DATABASE prod\<close> does not
  parse into a single statement: the library returns two, the second of type \<^verbatim>\<open>DROP\<close>.
  The validator takes the first and never looks at the length of the list: it returns a
  valid result without any error, and with the metadata of the \<^verbatim>\<open>SELECT\<close>.
\<close>

theorem second_statement_unchecked:
  "parse demo_sqlparse ''SELECT 1;DROP DATABASE prod'' = Inr [stmt_one, stmt_drop_db] \<and>
   sp_get_type demo_sqlparse stmt_drop_db = ''DROP'' \<and>
   validate_sql_query default_settings demo_sqlparse ''SELECT 1;DROP DATABASE prod'' =
     \<lparr>valid = True, errors = [], warnings = [],
      metadata = [(''join_count'', IntVal 0), (''subquery_count'', IntVal 0),
                  (''formatted_query'', StrVal ''SELECT 1;DROP DATABASE prod'')]\<rparr>"
proof -
  have p: "parse demo_sqlparse ''SELECT 1;DROP DATABASE prod'' =
             Inr (stmt_one # [stmt_drop_db])"
    by (simp add: parse_demo demo_parse_two)
  have t: "sp_get_type demo_sqlparse stmt_one = ''SELECT''"
    by (simp add: demo_get_type_eq demo_one_facts)
  have d: "sp_get_type demo_sqlparse stmt_drop_db = ''DROP''"
    by (simp add: demo_get_type_eq demo_type_drop_db)
  have v: "validate_sql_query default_settings demo_sqlparse ''SELECT 1;DROP DATABASE prod'' =
     \<lparr>valid = True, errors = [], warnings = [],
      metadata = [(''join_count'', IntVal 0), (''subquery_count'', IntVal 0),
                  (''formatted_query'', StrVal ''SELECT 1;DROP DATABASE prod'')]\<rparr>"
    by (simp add: validate_select [OF p t] demo_one_facts demo_one_subqueries
        join_errors_def subquery_errors_def default_settings_def demo_format_eq)
  from p d v show ?thesis by simp
qed



















section \<open>The guard: the claims\<close>

definition mk_violation :: "settings \<Rightarrow> sqlparse \<Rightarrow> string \<Rightarrow> violation" where
  "mk_violation c l query =
     \<lparr>v_query = query, v_errors = errors (validate_sql_query c l query),
      v_metadata = metadata (validate_sql_query c l query)\<rparr>"

lemma guard_foldl:
  "foldl (\<lambda>violations query.
              let result = validate_sql_query c l query in
              if \<not> valid result
              then violations @
                   [\<lparr>v_query = query, v_errors = errors result, v_metadata = metadata result\<rparr>]
              else violations) acc queries =
   acc @ map (mk_violation c l) (filter (\<lambda>q. \<not> valid (validate_sql_query c l q)) queries)"
  by (induction queries arbitrary: acc) (simp_all add: mk_violation_def Let_def)

lemma guard_loop_eq:
  "guard_loop c l queries =
     map (mk_violation c l) (filter (\<lambda>q. \<not> valid (validate_sql_query c l q)) queries)"
  unfolding guard_loop_def by (simp add: guard_foldl)

lemma contains_sql_empty: "\<not> contains_sql []"
  by code_simp

lemma contains_sql_hello: "\<not> contains_sql ''hello''"
  by code_simp

lemma contains_sql_drop: "contains_sql ''DROP TABLE users''"
  by code_simp

lemma extract_drop: "extract_sql_queries ''DROP TABLE users'' = [''DROP TABLE users'']"
  by code_simp

lemma demo_parse_drop: "demo_parse ''DROP TABLE users'' = Inr [stmt_drop]"
  by code_simp

lemma demo_type_drop: "demo_get_type stmt_drop = ''DROP''"
  by code_simp

lemma validate_demo_drop:
  "validate_sql_query c demo_sqlparse ''DROP TABLE users'' =
     \<lparr>valid = False, errors = [''Only SELECT statements allowed, got: DROP''],
      warnings = [], metadata = []\<rparr>"
  using validate_not_select [of demo_sqlparse "''DROP TABLE users''" stmt_drop "[]" c]
  by (simp add: parse_demo demo_parse_drop demo_get_type_eq demo_type_drop)

text \<open>
  Claim C1.  The guard always reports \<open>guard_checked\<close>.  With no message, with a last
  message that has no content, or with a content in which the detector finds no SQL
  (the empty content is one), the verdict is safe and there is no violation.  Otherwise
  the violations are, in order, one record of the query, its errors and its metadata for
  every extracted statement that the validator rejects, and the verdict is safe exactly
  when there is none, that is when every extracted statement is valid.
\<close>

theorem guard_verdict:
  "g_guard_checked (sql_validation_guard c l s) \<and>
   (messages s = [] \<or> content_attr (last (messages s)) = None \<or>
    content_attr (last (messages s)) = Some [] \<or>
    (\<exists>content. content_attr (last (messages s)) = Some content \<and> \<not> contains_sql content)
    \<longrightarrow> g_sql_safe (sql_validation_guard c l s) \<and>
        g_sql_violations (sql_validation_guard c l s) = []) \<and>
   (\<forall>content. messages s \<noteq> [] \<and> content_attr (last (messages s)) = Some content \<and>
      contains_sql content \<longrightarrow>
        g_sql_violations (sql_validation_guard c l s) =
          map (mk_violation c l)
            (filter (\<lambda>q. \<not> valid (validate_sql_query c l q)) (extract_sql_queries content)) \<and>
        g_sql_safe (sql_validation_guard c l s) =
          (g_sql_violations (sql_validation_guard c l s) = []) \<and>
        g_sql_safe (sql_validation_guard c l s) =
          list_all (\<lambda>q. valid (validate_sql_query c l q)) (extract_sql_queries content))"
proof -
  have checked: "g_guard_checked (sql_validation_guard c l s)"
    by (simp add: sql_validation_guard_def Let_def split: option.splits)
  have fail_open: "g_sql_safe (sql_validation_guard c l s) \<and>
        g_sql_violations (sql_validation_guard c l s) = []"
    if "messages s = [] \<or> content_attr (last (messages s)) = None \<or>
    content_attr (last (messages s)) = Some [] \<or>
    (\<exists>content. content_attr (last (messages s)) = Some content \<and> \<not> contains_sql content)"
    using that contains_sql_empty
    by (auto simp: sql_validation_guard_def Let_def split: option.splits)
  have checked_sql: "g_sql_violations (sql_validation_guard c l s) =
          map (mk_violation c l)
            (filter (\<lambda>q. \<not> valid (validate_sql_query c l q)) (extract_sql_queries content)) \<and>
        g_sql_safe (sql_validation_guard c l s) =
          (g_sql_violations (sql_validation_guard c l s) = []) \<and>
        g_sql_safe (sql_validation_guard c l s) =
          list_all (\<lambda>q. valid (validate_sql_query c l q)) (extract_sql_queries content)"
    if a: "messages s \<noteq> [] \<and> content_attr (last (messages s)) = Some content \<and>
      contains_sql content" for content
  proof -
    from a have g: "sql_validation_guard c l s =
      \<lparr>g_sql_safe = (length (guard_loop c l (extract_sql_queries content)) = 0),
       g_sql_violations = guard_loop c l (extract_sql_queries content),
       g_guard_checked = True\<rparr>"
      by (simp add: sql_validation_guard_def Let_def)
    show ?thesis
      by (simp add: g guard_loop_eq filter_empty_conv list_all_iff)
  qed
  from checked fail_open checked_sql show ?thesis by blast
qed

theorem guard_verdict_witness:
  "sql_validation_guard default_settings demo_sqlparse
     \<lparr>messages = [HumanMessage ''hi'', AIMessage ''hello'' []], user_input = ''hi'',
      tool_output = None, iteration_count = 1, should_continue = Some False,
      sql_safe = None, sql_violations = None, guard_checked = None\<rparr> =
     \<lparr>g_sql_safe = True, g_sql_violations = [], g_guard_checked = True\<rparr> \<and>
   sql_validation_guard default_settings demo_sqlparse
     \<lparr>messages = [HumanMessage ''hi'', AIMessage ''DROP TABLE users'' []], user_input = ''hi'',
      tool_output = None, iteration_count = 1, should_continue = Some False,
      sql_safe = None, sql_violations = None, guard_checked = None\<rparr> =
     \<lparr>g_sql_safe = False,
      g_sql_violations =
        [\<lparr>v_query = ''DROP TABLE users'',
          v_errors = [''Only SELECT statements allowed, got: DROP''], v_metadata = []\<rparr>],
      g_guard_checked = True\<rparr>"
  using
    guard_verdict [of default_settings demo_sqlparse
      "\<lparr>messages = [HumanMessage ''hi'', AIMessage ''hello'' []], user_input = ''hi'',
        tool_output = None, iteration_count = 1, should_continue = Some False,
        sql_safe = None, sql_violations = None, guard_checked = None\<rparr>"]
    guard_verdict [of default_settings demo_sqlparse
      "\<lparr>messages = [HumanMessage ''hi'', AIMessage ''DROP TABLE users'' []], user_input = ''hi'',
        tool_output = None, iteration_count = 1, should_continue = Some False,
        sql_safe = None, sql_violations = None, guard_checked = None\<rparr>"]
  by (simp add: contains_sql_hello contains_sql_drop extract_drop validate_demo_drop
      mk_violation_def guard_result.equality)

section \<open>The detector: the claims\<close>

text \<open>Two texts with two fenced blocks each.\<close>

definition two_blocks :: string where
  "two_blocks =
     ''```'' @ NL @ ''hello'' @ NL @ ''```'' @ NL @
     ''```sql'' @ NL @ ''DROP TABLE users;'' @ NL @ ''```''"

definition same_block_twice :: string where
  "same_block_twice =
     ''```sql'' @ NL @ ''SELECT * FROM users'' @ NL @ ''```'' @ NL @
     ''```sql'' @ NL @ ''SELECT * FROM users'' @ NL @ ''```''"

text \<open>
  Claim C4 does not hold of the code.  \<open>two_blocks\<close> has two fenced regions; the inner
  text of the second is \<^verbatim>\<open>DROP TABLE users;\<close>, which on its own is detected and which the
  extractor finds in the text; \<open>contains_sql\<close> looks at the first region only, removes
  both, and answers no.
\<close>

theorem fenced_detection_first_block_only:
  "map group1 (rx_finditer code_block_pattern None two_blocks) =
     [''hello'' @ NL, ''DROP TABLE users;'' @ NL] \<and>
   contains_sql_patterns (''DROP TABLE users;'' @ NL) \<and>
   contains_sql ''DROP TABLE users;'' \<and>
   extract_sql_queries two_blocks = [''DROP TABLE users;''] \<and>
   \<not> contains_sql two_blocks"
  by code_simp

text \<open>
  Claim C8 does not hold of the code.  The contents of the fenced blocks are appended
  without the membership test that the inline statements get: the same block twice gives
  the same entry twice.
\<close>

theorem fenced_extraction_duplicates:
  "extract_sql_queries same_block_twice = [''SELECT * FROM users'', ''SELECT * FROM users''] \<and>
   \<not> distinct (extract_sql_queries same_block_twice)"
  by code_simp

section \<open>The nodes and the graph: the claims\<close>


text \<open>The state that the command line builds for the user input \<^verbatim>\<open>hi\<close>.\<close>

definition initial_state :: state where
  "initial_state =
     \<lparr>messages = [HumanMessage ''hi''], user_input = ''hi'', tool_output = None,
      iteration_count = 0, should_continue = Some False, sql_safe = None,
      sql_violations = None, guard_checked = None\<rparr>"




text \<open>
  A tool that answers with its argument \<^verbatim>\<open>text\<close> between brackets, and raises when the
  argument is missing.
\<close>

definition echo_tool :: tool where
  "echo_tool =
     \<lparr>tool_name = ''echo'', tool_description = ''returns its argument in brackets'',
      tool_invoke = (\<lambda>args. case map_of args ''text'' of
                                 None \<Rightarrow> Inl ''missing argument: text''
                               | Some t \<Rightarrow> Inr (''['' @ t @ '']''))\<rparr>"

definition echo_env :: env where
  "echo_env =
     \<lparr>llm = (\<lambda>bound msgs. AIMessage ''hello'' []), tools = register echo_tool [],
      cfg = default_settings, lib = demo_sqlparse\<rparr>"

definition call_echo :: tool_call where
  "call_echo = \<lparr>tc_name = ''echo'', tc_args = [(''text'', ''42'')], tc_id = ''call_1''\<rparr>"

definition call_unknown :: tool_call where
  "call_unknown = \<lparr>tc_name = ''rm'', tc_args = [], tc_id = ''call_2''\<rparr>"

definition call_bad :: tool_call where
  "call_bad = \<lparr>tc_name = ''echo'', tc_args = [(''txt'', ''42'')], tc_id = ''call_3''\<rparr>"

definition calling_state :: "tool_call list \<Rightarrow> state" where
  "calling_state tcs =
     \<lparr>messages = [HumanMessage ''hi'', AIMessage [] tcs], user_input = ''hi'',
      tool_output = None, iteration_count = 1, should_continue = Some False,
      sql_safe = None, sql_violations = None, guard_checked = None\<rparr>"

text \<open>
  Claim C9.  The graph enters \<open>ACT\<close> only on a state whose last message has at least one
  tool call.  On such a state \<open>act_node\<close> raises nothing; it dispatches the first tool call
  only and appends exactly one tool message, which answers that call.  When the name of
  the call is registered, the tool registered under it is invoked on the arguments of
  the call, and the content of the message is the text the tool returns, or \<^verbatim>\<open>Error:\<close> and
  the text of the exception the tool raises; when the name is not registered, the
  content is \<^verbatim>\<open>Error: Unknown tool:\<close> and the name.
\<close>

theorem act_dispatch:
  "(\<forall>s0. step e (THINK, s0) = Inr (ACT, s) \<longrightarrow> should_use_tool s = Inr ''use_tool'') \<and>
   (should_use_tool s = Inr ''use_tool'' \<longrightarrow>
      (\<exists>c tc tcs content.
          last (messages s) = AIMessage c (tc # tcs) \<and>
          content =
            (case execute_tool (tools e) (tc_name tc) (tc_args tc) of
               Inr result \<Rightarrow> result
             | Inl err \<Rightarrow> ''Error: '' @ err) \<and>
          (map_of (tools e) (tc_name tc) = None \<longrightarrow>
             content = ''Error: Unknown tool: '' @ tc_name tc) \<and>
          (\<forall>t result. map_of (tools e) (tc_name tc) = Some t \<and>
               tool_invoke t (tc_args tc) = Inr result \<longrightarrow> content = result) \<and>
          (\<forall>t err. map_of (tools e) (tc_name tc) = Some t \<and>
               tool_invoke t (tc_args tc) = Inl err \<longrightarrow> content = ''Error: '' @ err) \<and>
          act_node e s =
            Inr (s\<lparr>messages := messages s @ [ToolMessage content (tc_id tc)],
                   tool_output := Some content\<rparr>) \<and>
          step e (ACT, s) =
            Inr (OBSERVE, s\<lparr>messages := messages s @ [ToolMessage content (tc_id tc)],
                            tool_output := Some content\<rparr>)))"
proof (intro conjI allI impI)
  fix s0
  assume "step e (THINK, s0) = Inr (ACT, s)"
  then show "should_use_tool s = Inr ''use_tool''"
    by (auto simp: Let_def should_use_tool_def split: sum.splits if_splits option.splits list.splits)
next
  assume a: "should_use_tool s = Inr ''use_tool''"
  then have ne: "messages s \<noteq> []"
    by (auto simp: should_use_tool_def split: if_splits)
  from a obtain tc tcs where tcs: "tool_calls_attr (last (messages s)) = Some (tc # tcs)"
    by (auto simp: should_use_tool_def split: if_splits option.splits list.splits)
  then obtain c where l: "last (messages s) = AIMessage c (tc # tcs)"
    by (cases "last (messages s)") simp_all
  define content where "content =
            (case execute_tool (tools e) (tc_name tc) (tc_args tc) of
               Inr result \<Rightarrow> result
             | Inl err \<Rightarrow> ''Error: '' @ err)"
  have u: "map_of (tools e) (tc_name tc) = None \<longrightarrow>
             content = ''Error: Unknown tool: '' @ tc_name tc"
    by (simp add: content_def execute_tool_def)
  have ok: "\<forall>t result. map_of (tools e) (tc_name tc) = Some t \<and>
               tool_invoke t (tc_args tc) = Inr result \<longrightarrow> content = result"
    by (simp add: content_def execute_tool_def)
  have err: "\<forall>t err. map_of (tools e) (tc_name tc) = Some t \<and>
               tool_invoke t (tc_args tc) = Inl err \<longrightarrow> content = ''Error: '' @ err"
    by (simp add: content_def execute_tool_def)
  have act: "act_node e s =
            Inr (s\<lparr>messages := messages s @ [ToolMessage content (tc_id tc)],
                   tool_output := Some content\<rparr>)"
    using ne tcs by (simp add: act_node_def content_def Let_def)
  then have stp: "step e (ACT, s) =
            Inr (OBSERVE, s\<lparr>messages := messages s @ [ToolMessage content (tc_id tc)],
                            tool_output := Some content\<rparr>)"
    by simp
  show "\<exists>c tc tcs content.
          last (messages s) = AIMessage c (tc # tcs) \<and>
          content =
            (case execute_tool (tools e) (tc_name tc) (tc_args tc) of
               Inr result \<Rightarrow> result
             | Inl err \<Rightarrow> ''Error: '' @ err) \<and>
          (map_of (tools e) (tc_name tc) = None \<longrightarrow>
             content = ''Error: Unknown tool: '' @ tc_name tc) \<and>
          (\<forall>t result. map_of (tools e) (tc_name tc) = Some t \<and>
               tool_invoke t (tc_args tc) = Inr result \<longrightarrow> content = result) \<and>
          (\<forall>t err. map_of (tools e) (tc_name tc) = Some t \<and>
               tool_invoke t (tc_args tc) = Inl err \<longrightarrow> content = ''Error: '' @ err) \<and>
          act_node e s =
            Inr (s\<lparr>messages := messages s @ [ToolMessage content (tc_id tc)],
                   tool_output := Some content\<rparr>) \<and>
          step e (ACT, s) =
            Inr (OBSERVE, s\<lparr>messages := messages s @ [ToolMessage content (tc_id tc)],
                            tool_output := Some content\<rparr>)"
  proof (intro exI conjI)
    show "last (messages s) = AIMessage c (tc # tcs)" by (rule l)
    show "content =
            (case execute_tool (tools e) (tc_name tc) (tc_args tc) of
               Inr result \<Rightarrow> result
             | Inl err \<Rightarrow> ''Error: '' @ err)" by (rule content_def)
    show "map_of (tools e) (tc_name tc) = None \<longrightarrow>
             content = ''Error: Unknown tool: '' @ tc_name tc" by (rule u)
    show "\<forall>t result. map_of (tools e) (tc_name tc) = Some t \<and>
               tool_invoke t (tc_args tc) = Inr result \<longrightarrow> content = result" by (rule ok)
    show "\<forall>t err. map_of (tools e) (tc_name tc) = Some t \<and>
               tool_invoke t (tc_args tc) = Inl err \<longrightarrow> content = ''Error: '' @ err" by (rule err)
    show "act_node e s =
            Inr (s\<lparr>messages := messages s @ [ToolMessage content (tc_id tc)],
                   tool_output := Some content\<rparr>)" by (rule act)
    show "step e (ACT, s) =
            Inr (OBSERVE, s\<lparr>messages := messages s @ [ToolMessage content (tc_id tc)],
                            tool_output := Some content\<rparr>)" by (rule stp)
  qed
qed

theorem act_dispatch_witness:
  "should_use_tool (calling_state [call_echo, call_unknown]) = Inr ''use_tool'' \<and>
   map_of (tools echo_env) ''echo'' = Some echo_tool \<and>
   tool_invoke echo_tool (tc_args call_echo) = Inr ''[42]'' \<and>
   act_node echo_env (calling_state [call_echo, call_unknown]) =
     Inr ((calling_state [call_echo, call_unknown])
            \<lparr>messages := [HumanMessage ''hi'', AIMessage [] [call_echo, call_unknown],
                           ToolMessage ''[42]'' ''call_1''],
              tool_output := Some ''[42]''\<rparr>) \<and>
   tool_invoke echo_tool (tc_args call_bad) = Inl ''missing argument: text'' \<and>
   act_node echo_env (calling_state [call_bad, call_echo]) =
     Inr ((calling_state [call_bad, call_echo])
            \<lparr>messages := [HumanMessage ''hi'', AIMessage [] [call_bad, call_echo],
                           ToolMessage ''Error: missing argument: text'' ''call_3''],
              tool_output := Some ''Error: missing argument: text''\<rparr>) \<and>
   map_of (tools echo_env) ''rm'' = None \<and>
   act_node echo_env (calling_state [call_unknown, call_echo]) =
     Inr ((calling_state [call_unknown, call_echo])
            \<lparr>messages := [HumanMessage ''hi'', AIMessage [] [call_unknown, call_echo],
                           ToolMessage ''Error: Unknown tool: rm'' ''call_2''],
              tool_output := Some ''Error: Unknown tool: rm''\<rparr>)"
proof -
  have reg: "map_of (tools echo_env) ''echo'' = Some echo_tool"
    "map_of (tools echo_env) ''rm'' = None"
    by (simp_all add: echo_env_def register_def echo_tool_def)
  have inv: "tool_invoke echo_tool (tc_args call_echo) = Inr ''[42]''"
    "tool_invoke echo_tool (tc_args call_bad) = Inl ''missing argument: text''"
    by (simp_all add: echo_tool_def call_echo_def call_bad_def)
  have use: "should_use_tool (calling_state (tc # tcs)) = Inr ''use_tool''" for tc tcs
    by (simp add: should_use_tool_def calling_state_def)
  have names: "tc_name call_echo = ''echo''" "tc_name call_bad = ''echo''"
    "tc_name call_unknown = ''rm''" "tc_id call_echo = ''call_1''" "tc_id call_bad = ''call_3''"
    "tc_id call_unknown = ''call_2''"
    by (simp_all add: call_echo_def call_bad_def call_unknown_def)
  have msgs: "messages (calling_state tcs) = [HumanMessage ''hi'', AIMessage [] tcs]" for tcs
    by (simp add: calling_state_def)
  have a1: "act_node echo_env (calling_state [call_echo, call_unknown]) =
     Inr ((calling_state [call_echo, call_unknown])
            \<lparr>messages := [HumanMessage ''hi'', AIMessage [] [call_echo, call_unknown],
                           ToolMessage ''[42]'' ''call_1''],
              tool_output := Some ''[42]''\<rparr>)"
    using act_dispatch [of echo_env "calling_state [call_echo, call_unknown]"] reg inv
    by (auto simp: use msgs names)
  have a2: "act_node echo_env (calling_state [call_bad, call_echo]) =
     Inr ((calling_state [call_bad, call_echo])
            \<lparr>messages := [HumanMessage ''hi'', AIMessage [] [call_bad, call_echo],
                           ToolMessage ''Error: missing argument: text'' ''call_3''],
              tool_output := Some ''Error: missing argument: text''\<rparr>)"
    using act_dispatch [of echo_env "calling_state [call_bad, call_echo]"] reg inv
    by (auto simp: use msgs names)
  have a3: "act_node echo_env (calling_state [call_unknown, call_echo]) =
     Inr ((calling_state [call_unknown, call_echo])
            \<lparr>messages := [HumanMessage ''hi'', AIMessage [] [call_unknown, call_echo],
                           ToolMessage ''Error: Unknown tool: rm'' ''call_2''],
              tool_output := Some ''Error: Unknown tool: rm''\<rparr>)"
    using act_dispatch [of echo_env "calling_state [call_unknown, call_echo]"] reg inv
    by (auto simp: use msgs names)
  from use reg inv a1 a2 a3 show ?thesis by simp
qed

lemma run_add:
  "run e (m + n) ns = (case run e m ns of Inl x \<Rightarrow> Inl x | Inr ns' \<Rightarrow> run e n ns')"
  by (induction m arbitrary: ns) (simp_all split: sum.splits)

lemma regeneration_cycle:
  assumes "\<And>bound msgs. llm e bound msgs = AIMessage bad []"
    and "contains_sql bad"
    and "\<not> list_all (\<lambda>q. valid (validate_sql_query (cfg e) (lib e) q)) (extract_sql_queries bad)"
  shows "\<exists>s'. run e 3 (THINK, s) = Inr (THINK, s') \<and>
              iteration_count s' = iteration_count s + 1"
proof -
  define s1 where "s1 = think_node e s"
  have m1: "messages s1 = messages s @ [AIMessage bad []]"
    and i1: "iteration_count s1 = iteration_count s + 1"
    by (simp_all add: s1_def think_node_def assms(1))
  have u: "should_use_tool s1 = Inr ''respond''"
    by (simp add: should_use_tool_def m1)
  have st1: "step e (THINK, s) = Inr (RESPOND, s1)"
    using u by (simp add: s1_def [symmetric])
  have st2: "step e (RESPOND, s1) = Inr (SQL_GUARD, s1)"
    by (simp add: respond_node_def)
  have g: "\<not> g_sql_safe (sql_validation_guard (cfg e) (lib e) s1) \<and>
           g_guard_checked (sql_validation_guard (cfg e) (lib e) s1)"
    using assms(2,3)
    by (simp add: sql_validation_guard_def m1 Let_def guard_loop_eq filter_empty_conv list_all_iff)
  define s2 where "s2 = apply_guard (sql_validation_guard (cfg e) (lib e) s1) s1"
  have "is_sql_safe s2 = ''unsafe''"
    using g by (simp add: s2_def apply_guard_def is_sql_safe_def)
  then have st3: "step e (SQL_GUARD, s1) = Inr (THINK, s2)"
    by (simp add: s2_def [symmetric])
  have i2: "iteration_count s2 = iteration_count s + 1"
    by (simp add: s2_def apply_guard_def i1)
  have "run e (Suc (Suc (Suc 0))) (THINK, s) = Inr (THINK, s2)"
    by (simp add: st1 st2 st3 del: step.simps)
  then have "run e 3 (THINK, s) = Inr (THINK, s2)"
    by (simp add: eval_nat_numeral)
  with i2 show ?thesis by (intro exI conjI)
qed

lemma regeneration_loop:
  assumes "\<And>bound msgs. llm e bound msgs = AIMessage bad []"
    and "contains_sql bad"
    and "\<not> list_all (\<lambda>q. valid (validate_sql_query (cfg e) (lib e) q)) (extract_sql_queries bad)"
  shows "\<exists>s'. run e (3 * n) (THINK, s) = Inr (THINK, s') \<and>
              iteration_count s' = iteration_count s + int n"
proof (induction n)
  case 0
  show ?case by simp
next
  case (Suc n)
  then obtain s' where r: "run e (3 * n) (THINK, s) = Inr (THINK, s')"
    and i: "iteration_count s' = iteration_count s + int n"
    by (elim exE conjE)
  from regeneration_cycle [OF assms, of s'] obtain s'' where
    r': "run e 3 (THINK, s') = Inr (THINK, s'')" and i': "iteration_count s'' = iteration_count s' + 1"
    by (elim exE conjE)
  have "3 * Suc n = 3 * n + 3" by simp
  then have "run e (3 * Suc n) (THINK, s) = run e (3 * n + 3) (THINK, s)" by (rule arg_cong)
  also have "\<dots> = Inr (THINK, s'')"
    by (simp only: run_add r sum.case r')
  finally have a: "run e (3 * Suc n) (THINK, s) = Inr (THINK, s'')" .
  have b: "iteration_count s'' = iteration_count s + int (Suc n)"
    using i i' by simp
  from a b show ?case by (intro exI conjI)
qed


definition drop_env :: env where
  "drop_env =
     \<lparr>llm = (\<lambda>bound msgs. AIMessage ''DROP TABLE users'' []), tools = [],
      cfg = default_settings, lib = demo_sqlparse\<rparr>"

text \<open>
  Claim C2.  Once the guard has run, the edge out of the guard depends on the verdict
  alone: \<open>is_sql_safe\<close> answers \<^verbatim>\<open>unsafe\<close> exactly when \<open>sql_safe\<close> is false, whatever the
  iteration count; the guard step goes to \<open>END\<close> when the guard's verdict is safe and to
  \<open>THINK\<close> when it is not, and leaves the iteration count as it is.  With a model that
  always answers with the same text, in which the detector finds SQL and of which some
  extracted statement is invalid, the run never ends: after every \<open>3 * n\<close> steps it is back
  at \<open>THINK\<close> with the iteration count raised by \<open>n\<close>, so it passes \<open>max_iterations\<close>.
\<close>

theorem guard_edge_ungated:
  "(guard_checked s = Some True \<longrightarrow>
      (is_sql_safe s = ''unsafe'') = (sql_safe s = Some False) \<and>
      (is_sql_safe s = ''safe'') = (sql_safe s \<noteq> Some False)) \<and>
   is_sql_safe (s\<lparr>iteration_count := k\<rparr>) = is_sql_safe s \<and>
   step e (SQL_GUARD, s) =
     Inr (if g_sql_safe (sql_validation_guard (cfg e) (lib e) s) then END else THINK,
          apply_guard (sql_validation_guard (cfg e) (lib e) s) s) \<and>
   iteration_count (apply_guard (sql_validation_guard (cfg e) (lib e) s) s) = iteration_count s \<and>
   ((\<forall>bound msgs. llm e bound msgs = AIMessage bad []) \<and> contains_sql bad \<and>
    \<not> list_all (\<lambda>q. valid (validate_sql_query (cfg e) (lib e) q)) (extract_sql_queries bad)
    \<longrightarrow>
      (\<forall>n. \<exists>s'. run e (3 * n) (THINK, s) = Inr (THINK, s') \<and>
                  iteration_count s' = iteration_count s + int n) \<and>
      (\<exists>n s'. run e n (THINK, s) = Inr (THINK, s') \<and>
               iteration_count s' > max_iterations (cfg e)))"
proof -
  have edge: "guard_checked s = Some True \<longrightarrow>
      (is_sql_safe s = ''unsafe'') = (sql_safe s = Some False) \<and>
      (is_sql_safe s = ''safe'') = (sql_safe s \<noteq> Some False)"
    by (cases "sql_safe s") (simp_all add: is_sql_safe_def)
  have indep: "is_sql_safe (s\<lparr>iteration_count := k\<rparr>) = is_sql_safe s"
    by (simp add: is_sql_safe_def)
  have checked: "g_guard_checked (sql_validation_guard (cfg e) (lib e) s)"
    by (simp add: sql_validation_guard_def Let_def split: option.splits)
  have guard_step: "step e (SQL_GUARD, s) =
     Inr (if g_sql_safe (sql_validation_guard (cfg e) (lib e) s) then END else THINK,
          apply_guard (sql_validation_guard (cfg e) (lib e) s) s)"
    using checked by (simp add: Let_def is_sql_safe_def apply_guard_def)
  have count: "iteration_count (apply_guard (sql_validation_guard (cfg e) (lib e) s) s) =
      iteration_count s"
    by (simp add: apply_guard_def)
  have loop: "(\<forall>n. \<exists>s'. run e (3 * n) (THINK, s) = Inr (THINK, s') \<and>
                  iteration_count s' = iteration_count s + int n) \<and>
      (\<exists>n s'. run e n (THINK, s) = Inr (THINK, s') \<and>
               iteration_count s' > max_iterations (cfg e))"
    if h: "(\<forall>bound msgs. llm e bound msgs = AIMessage bad []) \<and> contains_sql bad \<and>
    \<not> list_all (\<lambda>q. valid (validate_sql_query (cfg e) (lib e) q)) (extract_sql_queries bad)"
  proof -
    have all: "\<exists>s'. run e (3 * n) (THINK, s) = Inr (THINK, s') \<and>
                  iteration_count s' = iteration_count s + int n" for n
      using regeneration_loop [of e bad n s] h by simp
    define m where "m = nat (max_iterations (cfg e) - iteration_count s) + 1"
    from all [of m] obtain s' where r: "run e (3 * m) (THINK, s) = Inr (THINK, s')"
      and i: "iteration_count s' = iteration_count s + int m"
      by (elim exE conjE)
    have "iteration_count s' > max_iterations (cfg e)"
      using i by (simp add: m_def)
    with r have "\<exists>n s'. run e n (THINK, s) = Inr (THINK, s') \<and>
               iteration_count s' > max_iterations (cfg e)"
      by (intro exI conjI)
    with all show ?thesis by simp
  qed
  from edge indep guard_step count loop show ?thesis by simp
qed

theorem guard_edge_ungated_witness:
  "max_iterations (cfg drop_env) = 3 \<and>
   (\<exists>s'. run drop_env 12 (THINK, initial_state) = Inr (THINK, s') \<and> iteration_count s' = 4) \<and>
   step drop_env (SQL_GUARD, think_node drop_env initial_state) =
     Inr (THINK, apply_guard
            (sql_validation_guard default_settings demo_sqlparse (think_node drop_env initial_state))
            (think_node drop_env initial_state))"
proof -
  have v: "\<not> list_all (\<lambda>q. valid (validate_sql_query (cfg drop_env) (lib drop_env) q))
             (extract_sql_queries ''DROP TABLE users'')"
    by (simp add: extract_drop drop_env_def validate_demo_drop)
  have l: "\<forall>bound msgs. llm drop_env bound msgs = AIMessage ''DROP TABLE users'' []"
    by (simp add: drop_env_def)
  have g: "\<not> g_sql_safe (sql_validation_guard (cfg drop_env) (lib drop_env)
             (think_node drop_env initial_state))"
    using v contains_sql_drop
    by (simp add: sql_validation_guard_def think_node_def initial_state_def Let_def
        guard_loop_eq filter_empty_conv list_all_iff drop_env_def)
  have c: "cfg drop_env = default_settings" "lib drop_env = demo_sqlparse"
    by (simp_all add: drop_env_def)
  have i: "iteration_count initial_state = 0"
    by (simp add: initial_state_def)
  from guard_edge_ungated [of initial_state 0 drop_env "''DROP TABLE users''"] l contains_sql_drop v
  have "\<forall>n. \<exists>s'. run drop_env (3 * n) (THINK, initial_state) = Inr (THINK, s') \<and>
                  iteration_count s' = iteration_count initial_state + int n"
    by simp
  then have "\<exists>s'. run drop_env (3 * 4) (THINK, initial_state) = Inr (THINK, s') \<and>
                  iteration_count s' = iteration_count initial_state + int 4"
    by (rule spec)
  then have r: "\<exists>s'. run drop_env 12 (THINK, initial_state) = Inr (THINK, s') \<and> iteration_count s' = 4"
    by (simp add: i)
  have s: "step drop_env (SQL_GUARD, think_node drop_env initial_state) =
     Inr (THINK, apply_guard
            (sql_validation_guard default_settings demo_sqlparse (think_node drop_env initial_state))
            (think_node drop_env initial_state))"
    using guard_edge_ungated [of "think_node drop_env initial_state" 0 drop_env "''DROP TABLE users''"] g
    by (simp add: c del: step.simps)
  have m: "max_iterations (cfg drop_env) = 3"
    by (simp add: drop_env_def default_settings_def)
  from m r s show ?thesis by (intro conjI)
qed

end
